theory Spec2Isabelle
  imports Main
begin

section \<open>JavaScript strings\<close>

text \<open>
  A JavaScript string is a finite sequence of UTF-16 code units. A code unit is modelled
  by its numeric value, so that the white space characters outside ASCII, which
  \<^verbatim>\<open>String.prototype.trim\<close> and the regular expression class \<^verbatim>\<open>\s\<close> recognise, are
  ordinary elements of the type.
\<close>

type_synonym jsstring = "nat list"

definition js :: "string \<Rightarrow> jsstring" where
  "js s = map of_char s"

definition isWhiteSpace :: "nat \<Rightarrow> bool" where
  \<comment> \<open>ECMAScript WhiteSpace and LineTerminator: TAB, LF, VT, FF, CR, SP, NBSP, the
      Unicode space separators, LS, PS and the byte order mark.\<close>
  "isWhiteSpace c \<longleftrightarrow>
     c \<in> set [9, 10, 11, 12, 13, 32, 160, 5760, 8232, 8233, 8239, 8287, 12288, 65279]
     \<or> (8192 \<le> c \<and> c \<le> 8202)"

definition isDigit :: "nat \<Rightarrow> bool" where
  "isDigit c \<longleftrightarrow> 48 \<le> c \<and> c \<le> 57"

definition trim :: "jsstring \<Rightarrow> jsstring" where
  \<comment> \<open>\<^verbatim>\<open>s.trim()\<close>: white space removed from both ends.\<close>
  "trim s = rev (dropWhile isWhiteSpace (rev (dropWhile isWhiteSpace s)))"

definition truthy :: "jsstring \<Rightarrow> bool" where
  \<comment> \<open>A string used as a condition is true exactly when it is not empty.\<close>
  "truthy s \<longleftrightarrow> s \<noteq> []"

definition substring :: "jsstring \<Rightarrow> nat \<Rightarrow> nat \<Rightarrow> jsstring" where
  \<comment> \<open>\<^verbatim>\<open>s.substring(a, b)\<close>: both indices are clamped to the length and swapped when
      \<open>a > b\<close>.\<close>
  "substring s a b =
     (let a' = min a (length s); b' = min b (length s)
      in take (max a' b' - min a' b') (drop (min a' b') s))"

section \<open>JavaScript numbers\<close>

text \<open>
  Every number of this program is an integer-valued IEEE 754 double, an infinity or NaN:
  the results of \<^verbatim>\<open>parseInt\<close>, their products with 1, 60 and 3600, and counters moved by
  1. \<open>Fin n\<close> is the double of value \<open>n\<close> (the two zeros are identified: the program only
  compares them). An arithmetic result is the exact result rounded to the nearest
  double, ties to the even significand, and an infinity from \<open>2 ^ 1024\<close> on.
\<close>

datatype jsnum = NaN | Fin int | PosInf | NegInf

function bitlen :: "nat \<Rightarrow> nat" where
  "bitlen n = (if n = 0 then 0 else Suc (bitlen (n div 2)))"
  by pat_completeness auto
termination
  by (relation "measure id") auto

declare bitlen.simps [simp del]

definition round53 :: "nat \<Rightarrow> nat" where
  \<comment> \<open>The nearest natural number with at most 53 significant bits.\<close>
  "round53 n =
     (if n < 2 ^ 53 then n
      else let e = bitlen n - 53; q = n div 2 ^ e; r = n mod 2 ^ e;
               q' = (if 2 ^ e < 2 * r \<or> (2 * r = 2 ^ e \<and> odd q) then q + 1 else q)
           in q' * 2 ^ e)"

definition toF :: "int \<Rightarrow> jsnum" where
  \<comment> \<open>The Number value for a mathematical integer.\<close>
  "toF i =
     (let m = round53 (nat \<bar>i\<bar>)
      in if 2 ^ 1024 \<le> m then (if i < 0 then NegInf else PosInf)
         else Fin (if i < 0 then - int m else int m))"

fun num_neg :: "jsnum \<Rightarrow> jsnum" where
  "num_neg NaN = NaN"
| "num_neg (Fin a) = Fin (- a)"
| "num_neg PosInf = NegInf"
| "num_neg NegInf = PosInf"

fun num_add :: "jsnum \<Rightarrow> jsnum \<Rightarrow> jsnum" where
  "num_add NaN _ = NaN"
| "num_add _ NaN = NaN"
| "num_add (Fin a) (Fin b) = toF (a + b)"
| "num_add (Fin a) PosInf = PosInf"
| "num_add (Fin a) NegInf = NegInf"
| "num_add PosInf NegInf = NaN"
| "num_add PosInf _ = PosInf"
| "num_add NegInf PosInf = NaN"
| "num_add NegInf _ = NegInf"

definition num_sub :: "jsnum \<Rightarrow> jsnum \<Rightarrow> jsnum" where
  "num_sub a b = num_add a (num_neg b)"

definition inf_of_sign :: "int \<Rightarrow> jsnum" where
  "inf_of_sign a = (if a = 0 then NaN else if 0 < a then PosInf else NegInf)"

fun num_mul :: "jsnum \<Rightarrow> jsnum \<Rightarrow> jsnum" where
  "num_mul NaN _ = NaN"
| "num_mul _ NaN = NaN"
| "num_mul (Fin a) (Fin b) = toF (a * b)"
| "num_mul (Fin a) PosInf = inf_of_sign a"
| "num_mul (Fin a) NegInf = inf_of_sign (- a)"
| "num_mul PosInf (Fin b) = inf_of_sign b"
| "num_mul NegInf (Fin b) = inf_of_sign (- b)"
| "num_mul PosInf PosInf = PosInf"
| "num_mul PosInf NegInf = NegInf"
| "num_mul NegInf PosInf = NegInf"
| "num_mul NegInf NegInf = PosInf"

fun num_lt :: "jsnum \<Rightarrow> jsnum \<Rightarrow> bool" where
  "num_lt NaN _ = False"
| "num_lt _ NaN = False"
| "num_lt (Fin a) (Fin b) = (a < b)"
| "num_lt (Fin a) PosInf = True"
| "num_lt (Fin a) NegInf = False"
| "num_lt PosInf _ = False"
| "num_lt NegInf NegInf = False"
| "num_lt NegInf _ = True"

definition num_gt :: "jsnum \<Rightarrow> jsnum \<Rightarrow> bool" where
  "num_gt a b = num_lt b a"

definition num_eq :: "jsnum \<Rightarrow> jsnum \<Rightarrow> bool" where
  \<comment> \<open>Strict equality \<^verbatim>\<open>===\<close> on numbers: NaN equals nothing.\<close>
  "num_eq a b \<longleftrightarrow> a \<noteq> NaN \<and> a = b"

definition num_max :: "jsnum \<Rightarrow> jsnum \<Rightarrow> jsnum" where
  \<comment> \<open>\<^verbatim>\<open>Math.max(a, b)\<close>.\<close>
  "num_max a b = (if a = NaN \<or> b = NaN then NaN else if num_lt a b then b else a)"

lemma round53_small: "n < 2 ^ 53 \<Longrightarrow> round53 n = n"
  by (simp add: round53_def)

lemma toF_exact: "\<bar>i\<bar> < 2 ^ 53 \<Longrightarrow> toF i = Fin i"
proof -
  assume a: "\<bar>i\<bar> < 2 ^ 53"
  then have n: "nat \<bar>i\<bar> < 2 ^ 53"
    by (simp add: nat_less_iff)
  have "(2::nat) ^ 53 < 2 ^ 1024"
    by (rule power_strict_increasing) simp_all
  with n have "\<not> 2 ^ 1024 \<le> nat \<bar>i\<bar>"
    by linarith
  with n show ?thesis
    by (simp add: toF_def round53_small Let_def)
qed

lemma round53_at_limit: "round53 (2 ^ 53) = 2 ^ 53"
  by (simp add: round53_def bitlen.simps)

lemma round53_above_limit: "round53 (2 ^ 53 + 1) = 2 ^ 53"
  by (simp add: round53_def bitlen.simps)


section \<open>The data model\<close>

datatype LoadingState =
  IDLE | CAPTURING | ANALYZING | REVIEW_INGREDIENTS | FETCHING_RECIPES | SHOWING_RESULTS | ERROR

subsection \<open>JSON values\<close>

text \<open>
  The interfaces \<^verbatim>\<open>Ingredient\<close>, \<^verbatim>\<open>NutritionalInfo\<close> and \<^verbatim>\<open>Recipe\<close> of the source are
  compile-time types. At run time an ingredient or a recipe is the value that
  \<^verbatim>\<open>JSON.parse\<close> returned for the service's reply, or an object literal of the application;
  the source casts the parsed value and never checks it. So the model holds JSON values,
  and the interfaces are predicates on them.

  A number is a double: \<open>Finite m e\<close> is \<open>m * 2 ^ e\<close>, and \<^verbatim>\<open>JSON.parse\<close> yields an infinity
  for a literal beyond the range. The code looks at a number of a reply only to see
  whether it is zero. An object lists its own properties; their keys are distinct,
  \<^verbatim>\<open>JSON.parse\<close> having kept the last of equal keys.
\<close>

datatype jsonNumber = Finite int int | PlusInfinity | MinusInfinity

datatype json =
  JNull | JBool bool | JNumber jsonNumber | JString jsstring | JArray "json list"
  | JObject "(jsstring \<times> json) list"

definition isZero :: "jsonNumber \<Rightarrow> bool" where
  "isZero n = (case n of Finite m e \<Rightarrow> m = 0 | _ \<Rightarrow> False)"

definition property :: "jsstring \<Rightarrow> json \<Rightarrow> json option" where
  \<comment> \<open>\<^verbatim>\<open>v.k\<close> for a value \<open>v\<close> that is not null and a key \<open>k\<close> that arrays, strings and
      the prototypes do not define (\<^verbatim>\<open>name\<close>, \<^verbatim>\<open>quantity\<close> and the like); \<open>None\<close> is
      \<^verbatim>\<open>undefined\<close>.\<close>
  "property k v = (case v of JObject kvs \<Rightarrow> map_of kvs k | _ \<Rightarrow> None)"

definition jsTruthy :: "json option \<Rightarrow> bool" where
  \<comment> \<open>a value used as a condition\<close>
  "jsTruthy v =
     (case v of
        None \<Rightarrow> False
      | Some JNull \<Rightarrow> False
      | Some (JBool b) \<Rightarrow> b
      | Some (JNumber n) \<Rightarrow> \<not> isZero n
      | Some (JString t) \<Rightarrow> t \<noteq> []
      | Some (JArray xs) \<Rightarrow> True
      | Some (JObject kvs) \<Rightarrow> True)"

definition lengthIsZero :: "json \<Rightarrow> bool" where
  \<comment> \<open>\<^verbatim>\<open>v.length === 0\<close> for a value \<open>v\<close> that is not null\<close>
  "lengthIsZero v =
     (case v of
        JArray xs \<Rightarrow> xs = []
      | JString t \<Rightarrow> t = []
      | JObject kvs \<Rightarrow>
          (case map_of kvs (js ''length'') of Some (JNumber n) \<Rightarrow> isZero n | _ \<Rightarrow> False)
      | _ \<Rightarrow> False)"

definition elementsOf :: "json \<Rightarrow> json list" where
  \<comment> \<open>the elements of an array; nothing else has elements\<close>
  "elementsOf v = (case v of JArray xs \<Rightarrow> xs | _ \<Rightarrow> [])"

text \<open>
  The conversion of a value to a string, in a template literal or in \<^verbatim>\<open>join\<close>, throws
  a TypeError for an object with an own property \<^verbatim>\<open>toString\<close> (the property is not a
  function, and \<^verbatim>\<open>valueOf\<close> gives no primitive value), and for an array with an element
  whose conversion throws.
\<close>

fun unprintable :: "json \<Rightarrow> bool" where
  "unprintable (JObject kvs) = (js ''toString'' \<in> set (map fst kvs))"
| "unprintable (JArray xs) = list_ex unprintable xs"
| "unprintable v = False"

definition unprintableOpt :: "json option \<Rightarrow> bool" where
  "unprintableOpt v = (case v of None \<Rightarrow> False | Some x \<Rightarrow> unprintable x)"

subsection \<open>The declared shapes\<close>

definition isString :: "json option \<Rightarrow> bool" where
  "isString v = (case v of Some (JString t) \<Rightarrow> True | _ \<Rightarrow> False)"

definition isStringArray :: "json option \<Rightarrow> bool" where
  "isStringArray v = (case v of Some (JArray xs) \<Rightarrow> list_all (\<lambda>x. isString (Some x)) xs | _ \<Rightarrow> False)"

definition isIngredient :: "json \<Rightarrow> bool" where
  \<comment> \<open>\<^verbatim>\<open>interface Ingredient { name: string; quantity: string; }\<close>\<close>
  "isIngredient v \<longleftrightarrow>
     isString (property (js ''name'') v) \<and> isString (property (js ''quantity'') v)"

definition isNutritionalInfo :: "json option \<Rightarrow> bool" where
  "isNutritionalInfo v =
     (case v of
        Some n \<Rightarrow>
          isString (property (js ''calories'') n) \<and> isString (property (js ''protein'') n)
          \<and> isString (property (js ''carbs'') n) \<and> isString (property (js ''fat'') n)
      | None \<Rightarrow> False)"

definition isRecipe :: "json \<Rightarrow> bool" where
  "isRecipe v \<longleftrightarrow>
     isString (property (js ''recipeName'') v) \<and> isString (property (js ''description'') v)
     \<and> isStringArray (property (js ''ingredients'') v)
     \<and> isStringArray (property (js ''instructions'') v)
     \<and> isNutritionalInfo (property (js ''nutritionalInfo'') v)
     \<and> isString (property (js ''prepTime'') v)"

definition isIngredientList :: "json \<Rightarrow> bool" where
  "isIngredientList v = (case v of JArray xs \<Rightarrow> list_all isIngredient xs | _ \<Rightarrow> False)"

definition isRecipeList :: "json \<Rightarrow> bool" where
  "isRecipeList v = (case v of JArray xs \<Rightarrow> list_all isRecipe xs | _ \<Rightarrow> False)"

definition ingredientRecord :: "jsstring \<Rightarrow> json" where
  \<comment> \<open>\<^verbatim>\<open>{ name: n, quantity: "" }\<close>\<close>
  "ingredientRecord n = JObject [(js ''name'', JString n), (js ''quantity'', JString [])]"

subsection \<open>Thrown values\<close>

text \<open>
  A thrown value is an \<^verbatim>\<open>Error\<close> object with its message, or anything else. The message
  is a given string, or the message of an error that the engine raised (a TypeError),
  whose wording is the engine's. A function that may throw returns \<open>Inl\<close> of the thrown
  value.
\<close>

datatype message = Message jsstring | EngineMessage

datatype thrown = ErrorObj message | NonError

section \<open>The two service functions (geminiService.ts)\<close>

text \<open>
  Both functions build a request, await the model's reply inside a \<^verbatim>\<open>try\<close> block, read
  the reply's text and hand it to \<^verbatim>\<open>JSON.parse\<close>, whose value they return as it is. The
  reply is the environment's answer: it either rejects with some thrown value or resolves
  to a response whose \<^verbatim>\<open>text\<close> may be absent; it is an argument of the model, and so is
  \<^verbatim>\<open>JSON.parse\<close>.

  \<open>identifyIngredientsFromImage\<close> maps over the array of image strings that its caller
  built, which cannot throw. \<open>fetchRecipesFromIngredients\<close> builds its prompt before the
  \<^verbatim>\<open>try\<close> block, from the ingredients it is given:
  \<^verbatim>\<open>ingredients.map(i => i.quantity ? `${i.quantity} ${i.name}` : i.name).join(', ')\<close>.
  This throws a TypeError when the argument is not an array, when an element is null,
  and when a quantity or a name that goes into the text cannot be converted to a
  string. The servings, a number, and the cuisine, a string, enter the prompt by
  conversions that cannot throw.
\<close>

datatype 'a outcome = Rejected thrown | Resolved 'a

record response =
  responseText :: "jsstring option"  \<comment> \<open>the \<^verbatim>\<open>text\<close> property, \<open>None\<close> when undefined\<close>

definition identifyFailed :: jsstring where
  "identifyFailed =
     js ''Failed to identify ingredients from the images. Please try clearer pictures.''"

definition recipesFailed :: jsstring where
  "recipesFailed =
     js ''Failed to generate recipes. The ingredients might not be suitable for common dishes.''"

definition jsonText :: "response \<Rightarrow> jsstring" where
  \<comment> \<open>\<^verbatim>\<open>response.text?.trim() || "[]"\<close>\<close>
  "jsonText r =
     (case responseText r of
        None \<Rightarrow> js ''[]''
      | Some t \<Rightarrow> if truthy (trim t) then trim t else js ''[]'')"

definition identifyIngredientsFromImage ::
  "(jsstring \<Rightarrow> thrown + json) \<Rightarrow> response outcome \<Rightarrow> thrown + json" where
  "identifyIngredientsFromImage parse reply =
     (case reply of
        Rejected e \<Rightarrow> Inl (ErrorObj (Message identifyFailed))
      | Resolved r \<Rightarrow>
          (case parse (jsonText r) of
             Inl e \<Rightarrow> Inl (ErrorObj (Message identifyFailed))
           | Inr found \<Rightarrow> Inr found))"

definition itemThrows :: "json \<Rightarrow> bool" where
  \<comment> \<open>the callback of \<^verbatim>\<open>map\<close> on one element, and the conversion of its result by
      \<^verbatim>\<open>join\<close>, which takes null and \<^verbatim>\<open>undefined\<close> for the empty string\<close>
  "itemThrows i \<longleftrightarrow>
     i = JNull
     \<or> (if jsTruthy (property (js ''quantity'') i)
         then unprintableOpt (property (js ''quantity'') i)
              \<or> unprintableOpt (property (js ''name'') i)
         else unprintableOpt (property (js ''name'') i))"

definition promptThrows :: "json \<Rightarrow> bool" where
  "promptThrows ingredients =
     (case ingredients of JArray xs \<Rightarrow> list_ex itemThrows xs | _ \<Rightarrow> True)"

definition fetchRecipesFromIngredients ::
  "(jsstring \<Rightarrow> thrown + json) \<Rightarrow> json \<Rightarrow> response outcome \<Rightarrow> thrown + json" where
  "fetchRecipesFromIngredients parse ingredients reply =
     (if promptThrows ingredients then Inl (ErrorObj EngineMessage)
      else case reply of
             Rejected e \<Rightarrow> Inl (ErrorObj (Message recipesFailed))
           | Resolved r \<Rightarrow>
               (case parse (jsonText r) of
                  Inl e \<Rightarrow> Inl (ErrorObj (Message recipesFailed))
                | Inr found \<Rightarrow> Inr found))"

section \<open>The application (App component)\<close>

text \<open>
  The state is the nine \<^verbatim>\<open>useState\<close> variables and the camera stream reference. The
  ingredients and the recipes are declared as arrays; they start as empty arrays and
  later hold what the service functions returned. Four counters record the
  asynchronous operations that were started and have not settled yet: camera requests,
  analyses, recipe requests and file reads. The source starts them and never cancels
  one, so each can settle at any later moment.
\<close>

record app =
  loadingState :: LoadingState
  images :: "jsstring list"
  ingredients :: json
  recipes :: json
  error :: "message option"
  servings :: jsnum
  cuisine :: jsstring
  deferredPrompt :: "nat option"
  newIngredientInput :: jsstring
  streamRef :: bool
  pendingCamera :: nat
  pendingAnalyze :: nat
  pendingGenerate :: nat
  pendingReads :: nat

definition CUISINE_OPTIONS :: "jsstring list" where
  "CUISINE_OPTIONS =
     [js ''Open'', js ''Asian'', js ''Comfort Food'', js ''Gluten-Free'', js ''Indian'',
      js ''Italian'', js ''Keto'', js ''Mediterranean'', js ''Mexican'', js ''Paleo'',
      js ''Quick (< 30m)'', js ''Vegan'', js ''Vegetarian'']"

definition initialState :: app where
  "initialState =
     \<lparr>loadingState = IDLE, images = [], ingredients = JArray [], recipes = JArray [],
      error = None,
      servings = Fin 1, cuisine = js ''Open'', deferredPrompt = None,
      newIngredientInput = [], streamRef = False, pendingCamera = 0, pendingAnalyze = 0,
      pendingGenerate = 0, pendingReads = 0\<rparr>"

definition cameraFailed :: jsstring where
  "cameraFailed = js ''Could not access the camera. Please check permissions and try again.''"

definition nothingIdentified :: jsstring where
  "nothingIdentified =
     js ''No ingredients could be identified. Please try clearer pictures with well-lit ingredients.''"

definition unknownError :: jsstring where
  "unknownError = js ''An unknown error occurred.''"

definition errorMessage :: "thrown \<Rightarrow> message" where
  \<comment> \<open>\<^verbatim>\<open>err instanceof Error ? err.message : "An unknown error occurred."\<close>\<close>
  "errorMessage err = (case err of ErrorObj m \<Rightarrow> m | NonError \<Rightarrow> Message unknownError)"

definition removeAt :: "nat \<Rightarrow> 'a list \<Rightarrow> 'a list" where
  \<comment> \<open>\<^verbatim>\<open>prev.filter((_, i) => i !== index)\<close>\<close>
  "removeAt index prev = map fst (filter (\<lambda>(x, i). i \<noteq> index) (zip prev [0..<length prev]))"

definition stopCamera :: "app \<Rightarrow> app" where
  "stopCamera s = (if streamRef s then s\<lparr>streamRef := False\<rparr> else s)"

definition handleStartCamera :: "app \<Rightarrow> app" where
  \<comment> \<open>up to the \<^verbatim>\<open>await\<close>\<close>
  "handleStartCamera s =
     s\<lparr>error := None, loadingState := CAPTURING, pendingCamera := Suc (pendingCamera s)\<rparr>"

definition handleStartCamera_granted :: "app \<Rightarrow> app" where
  "handleStartCamera_granted s = s\<lparr>streamRef := True, pendingCamera := pendingCamera s - 1\<rparr>"

definition handleStartCamera_catch :: "app \<Rightarrow> app" where
  "handleStartCamera_catch s =
     s\<lparr>error := Some (Message cameraFailed), loadingState := ERROR,
       pendingCamera := pendingCamera s - 1\<rparr>"

definition handleAnalyze :: "app \<Rightarrow> app" where
  \<comment> \<open>up to the \<^verbatim>\<open>await\<close>\<close>
  "handleAnalyze s =
     (if length (images s) = 0 then s
      else s\<lparr>loadingState := ANALYZING, pendingAnalyze := Suc (pendingAnalyze s)\<rparr>)"

definition handleAnalyze_settled :: "thrown + json \<Rightarrow> app \<Rightarrow> app" where
  \<comment> \<open>After the \<^verbatim>\<open>await\<close>, with the result of \<open>identifyIngredientsFromImage\<close>. Reading
      the length of null throws a TypeError inside the \<^verbatim>\<open>try\<close> block, which the handler
      catches like any other error.\<close>
  "handleAnalyze_settled result s =
     (let s' = s\<lparr>pendingAnalyze := pendingAnalyze s - 1\<rparr>
      in case result of
           Inr identifiedIngredients \<Rightarrow>
             if identifiedIngredients = JNull
             then s'\<lparr>error := Some (errorMessage (ErrorObj EngineMessage)),
                    loadingState := ERROR\<rparr>
             else if lengthIsZero identifiedIngredients
             then s'\<lparr>error := Some (Message nothingIdentified), loadingState := ERROR\<rparr>
             else s'\<lparr>ingredients := identifiedIngredients, loadingState := REVIEW_INGREDIENTS\<rparr>
         | Inl err \<Rightarrow> s'\<lparr>error := Some (errorMessage err), loadingState := ERROR\<rparr>)"

definition handleGenerateRecipes :: "app \<Rightarrow> app" where
  \<comment> \<open>up to the \<^verbatim>\<open>await\<close>\<close>
  "handleGenerateRecipes s =
     s\<lparr>loadingState := FETCHING_RECIPES, pendingGenerate := Suc (pendingGenerate s)\<rparr>"

definition handleGenerateRecipes_settled :: "thrown + json \<Rightarrow> app \<Rightarrow> app" where
  \<comment> \<open>after the \<^verbatim>\<open>await\<close>, with the result of \<open>fetchRecipesFromIngredients\<close>\<close>
  "handleGenerateRecipes_settled result s =
     (let s' = s\<lparr>pendingGenerate := pendingGenerate s - 1\<rparr>
      in case result of
           Inr suggestedRecipes \<Rightarrow>
             s'\<lparr>recipes := suggestedRecipes, loadingState := SHOWING_RESULTS\<rparr>
         | Inl err \<Rightarrow> s'\<lparr>error := Some (errorMessage err), loadingState := ERROR\<rparr>)"

definition handleCaptureImage :: "jsstring option \<Rightarrow> app \<Rightarrow> app" where
  \<comment> \<open>The argument is the data URL of the frame, \<open>None\<close> when the canvas gives no
      drawing context.\<close>
  "handleCaptureImage frame s =
     (case frame of
        None \<Rightarrow> s
      | Some dataUrl \<Rightarrow> (stopCamera (s\<lparr>images := images s @ [dataUrl]\<rparr>))\<lparr>loadingState := IDLE\<rparr>)"

definition cancelCapture :: "app \<Rightarrow> app" where
  \<comment> \<open>the Cancel button of the camera view\<close>
  "cancelCapture s = (stopCamera s)\<lparr>loadingState := IDLE\<rparr>"

definition handleFileChange :: "bool \<Rightarrow> app \<Rightarrow> app" where
  \<comment> \<open>The argument tells whether a file was chosen; if so a read is started.\<close>
  "handleFileChange chosen s = (if chosen then s\<lparr>pendingReads := Suc (pendingReads s)\<rparr> else s)"

definition reader_onload :: "jsstring \<Rightarrow> app \<Rightarrow> app" where
  "reader_onload dataUrl s = s\<lparr>images := images s @ [dataUrl], pendingReads := pendingReads s - 1\<rparr>"

definition reader_failed :: "app \<Rightarrow> app" where
  \<comment> \<open>The reader has an \<^verbatim>\<open>onload\<close> callback only: when a read fails, no code of the
      application runs.\<close>
  "reader_failed s = s\<lparr>pendingReads := pendingReads s - 1\<rparr>"

definition removeImage :: "nat \<Rightarrow> app \<Rightarrow> app" where
  "removeImage index s = s\<lparr>images := removeAt index (images s)\<rparr>"

text \<open>
  The two updaters of the ingredient list. \<^verbatim>\<open>prev.filter(...)\<close> throws a TypeError unless
  \<open>prev\<close> is an array. The spread \<^verbatim>\<open>[...prev, x]\<close> takes the elements of an array and
  the code points of a string, and throws a TypeError for any other value. A handler
  whose updater throws yields \<open>Inl\<close>.
\<close>

fun codePoints :: "jsstring \<Rightarrow> jsstring list" where
  "codePoints (h # l # rest) =
     (if 55296 \<le> h \<and> h \<le> 56319 \<and> 56320 \<le> l \<and> l \<le> 57343 then [h, l] # codePoints rest
      else [h] # codePoints (l # rest))"
| "codePoints [c] = [[c]]"
| "codePoints [] = []"

definition filterOut :: "nat \<Rightarrow> json \<Rightarrow> thrown + json" where
  \<comment> \<open>\<^verbatim>\<open>prev.filter((_, i) => i !== index)\<close>\<close>
  "filterOut index prev =
     (case prev of
        JArray xs \<Rightarrow> Inr (JArray (removeAt index xs))
      | _ \<Rightarrow> Inl (ErrorObj EngineMessage))"

definition spreadWith :: "json \<Rightarrow> json \<Rightarrow> thrown + json" where
  \<comment> \<open>\<^verbatim>\<open>[...prev, x]\<close>\<close>
  "spreadWith prev x =
     (case prev of
        JArray xs \<Rightarrow> Inr (JArray (xs @ [x]))
      | JString t \<Rightarrow> Inr (JArray (map JString (codePoints t) @ [x]))
      | _ \<Rightarrow> Inl (ErrorObj EngineMessage))"

definition removeIngredient :: "nat \<Rightarrow> app \<Rightarrow> thrown + app" where
  "removeIngredient index s =
     (case filterOut index (ingredients s) of
        Inr kept \<Rightarrow> Inr (s\<lparr>ingredients := kept\<rparr>)
      | Inl err \<Rightarrow> Inl err)"

definition addIngredient :: "app \<Rightarrow> thrown + app" where
  "addIngredient s =
     (if truthy (trim (newIngredientInput s))
      then case spreadWith (ingredients s) (ingredientRecord (trim (newIngredientInput s))) of
             Inr extended \<Rightarrow> Inr (s\<lparr>ingredients := extended, newIngredientInput := []\<rparr>)
           | Inl err \<Rightarrow> Inl err
      else Inr s)"

definition decreaseServings :: "app \<Rightarrow> app" where
  \<comment> \<open>\<^verbatim>\<open>setServings(s => Math.max(1, s - 1))\<close>\<close>
  "decreaseServings s = s\<lparr>servings := num_max (Fin 1) (num_sub (servings s) (Fin 1))\<rparr>"

definition increaseServings :: "app \<Rightarrow> app" where
  \<comment> \<open>\<^verbatim>\<open>setServings(s => s + 1)\<close>\<close>
  "increaseServings s = s\<lparr>servings := num_add (servings s) (Fin 1)\<rparr>"

definition handleReset :: "app \<Rightarrow> app" where
  "handleReset s =
     (stopCamera s)\<lparr>loadingState := IDLE, images := [], ingredients := JArray [],
       recipes := JArray [],
       error := None, servings := Fin 1, cuisine := js ''Open'', newIngredientInput := []\<rparr>"

definition handleInstallChoice :: "bool \<Rightarrow> app \<Rightarrow> app" where
  \<comment> \<open>\<open>handleInstallClick\<close>, with the user's answer to the install prompt\<close>
  "handleInstallChoice accepted s =
     (if deferredPrompt s \<noteq> None \<and> accepted then s\<lparr>deferredPrompt := None\<rparr> else s)"

subsection \<open>The review view\<close>

text \<open>
  The review view renders \<^verbatim>\<open>ingredients.map((ing, idx) => ...)\<close> with \<^verbatim>\<open>{ing.name}\<close> and
  \<^verbatim>\<open>{ing.quantity && <span>{ing.quantity}</span>}\<close>. This throws when the list is not
  an array and when an element is null; and React throws for a child that is an
  object, while it accepts null, \<^verbatim>\<open>undefined\<close>, booleans, numbers, strings and arrays of
  such. A view that throws is not shown: React discards the whole tree.
\<close>

fun validChild :: "json \<Rightarrow> bool" where
  "validChild (JObject kvs) = False"
| "validChild (JArray xs) = list_all validChild xs"
| "validChild v = True"

definition validChildOpt :: "json option \<Rightarrow> bool" where
  "validChildOpt v = (case v of None \<Rightarrow> True | Some x \<Rightarrow> validChild x)"

definition rowRenders :: "json \<Rightarrow> bool" where
  "rowRenders ing \<longleftrightarrow>
     ing \<noteq> JNull \<and> validChildOpt (property (js ''name'') ing)
     \<and> validChildOpt (property (js ''quantity'') ing)"

definition reviewRenders :: "json \<Rightarrow> bool" where
  "reviewRenders v = (case v of JArray xs \<Rightarrow> list_all rowRenders xs | _ \<Rightarrow> False)"

subsection \<open>Events and the views that offer them\<close>

text \<open>
  \<open>renderContent\<close> decides which controls exist: the idle and the error state share one
  view (scan, upload, servings, cuisine, the staged images and, once there is an image,
  the analyze button); the camera view has Cancel and Capture; the two loading views
  have no control; the review view has the ingredient editor, Generate and Start Over;
  the result view has Start Over. Settling events need an operation that is pending.

  A view offers its controls only if it renders. \<open>enabled\<close> leaves rendering out: it
  allows every event that the application allows, and some that only a view that does
  not render would offer. The updaters of the ingredient list throw only for a list
  that is not an array, with which the review view does not render; for such an event
  \<open>step\<close> leaves the state as it is.
\<close>

datatype event =
    BeforeInstallPrompt nat
  | InstallChoice bool
  | StartCameraClick
  | CameraGranted
  | CameraDenied
  | AnalyzeClick
  | AnalyzeSettled "thrown + json"
  | GenerateClick
  | GenerateSettled "thrown + json"
  | CaptureClick "jsstring option"
  | CancelClick
  | FileChange bool
  | FileLoaded jsstring
  | FileFailed
  | RemoveImageClick nat
  | RemoveIngredientClick nat
  | InputChange jsstring
  | AddIngredientAction
  | DecreaseClick
  | IncreaseClick
  | CuisineChange jsstring
  | ResetClick

definition startView :: "app \<Rightarrow> bool" where
  "startView s \<longleftrightarrow> loadingState s = IDLE \<or> loadingState s = ERROR"

fun enabled :: "event \<Rightarrow> app \<Rightarrow> bool" where
  "enabled (BeforeInstallPrompt h) s = True"
| "enabled (InstallChoice accepted) s = (deferredPrompt s \<noteq> None)"
| "enabled StartCameraClick s = startView s"
| "enabled CameraGranted s = (0 < pendingCamera s)"
| "enabled CameraDenied s = (0 < pendingCamera s)"
| "enabled AnalyzeClick s = (startView s \<and> 0 < length (images s))"
| "enabled (AnalyzeSettled result) s = (0 < pendingAnalyze s)"
| "enabled GenerateClick s =
     (loadingState s = REVIEW_INGREDIENTS \<and> \<not> lengthIsZero (ingredients s))"
| "enabled (GenerateSettled result) s = (0 < pendingGenerate s)"
| "enabled (CaptureClick frame) s = (loadingState s = CAPTURING)"
| "enabled CancelClick s = (loadingState s = CAPTURING)"
| "enabled (FileChange chosen) s = startView s"
| "enabled (FileLoaded dataUrl) s = (0 < pendingReads s)"
| "enabled FileFailed s = (0 < pendingReads s)"
| "enabled (RemoveImageClick index) s = (startView s \<and> index < length (images s))"
| "enabled (RemoveIngredientClick index) s =
     (loadingState s = REVIEW_INGREDIENTS \<and> index < length (elementsOf (ingredients s)))"
| "enabled (InputChange v) s = (loadingState s = REVIEW_INGREDIENTS)"
| "enabled AddIngredientAction s = (loadingState s = REVIEW_INGREDIENTS)"
| "enabled DecreaseClick s = startView s"
| "enabled IncreaseClick s = startView s"
| "enabled (CuisineChange v) s = (startView s \<and> v \<in> set CUISINE_OPTIONS)"
| "enabled ResetClick s =
     (loadingState s = REVIEW_INGREDIENTS \<or> loadingState s = SHOWING_RESULTS)"

fun step :: "event \<Rightarrow> app \<Rightarrow> app" where
  "step (BeforeInstallPrompt h) s = s\<lparr>deferredPrompt := Some h\<rparr>"
| "step (InstallChoice accepted) s = handleInstallChoice accepted s"
| "step StartCameraClick s = handleStartCamera s"
| "step CameraGranted s = handleStartCamera_granted s"
| "step CameraDenied s = handleStartCamera_catch s"
| "step AnalyzeClick s = handleAnalyze s"
| "step (AnalyzeSettled result) s = handleAnalyze_settled result s"
| "step GenerateClick s = handleGenerateRecipes s"
| "step (GenerateSettled result) s = handleGenerateRecipes_settled result s"
| "step (CaptureClick frame) s = handleCaptureImage frame s"
| "step CancelClick s = cancelCapture s"
| "step (FileChange chosen) s = handleFileChange chosen s"
| "step (FileLoaded dataUrl) s = reader_onload dataUrl s"
| "step FileFailed s = reader_failed s"
| "step (RemoveImageClick index) s = removeImage index s"
| "step (RemoveIngredientClick index) s =
     (case removeIngredient index s of Inr s' \<Rightarrow> s' | Inl err \<Rightarrow> s)"
| "step (InputChange v) s = s\<lparr>newIngredientInput := v\<rparr>"
| "step AddIngredientAction s = (case addIngredient s of Inr s' \<Rightarrow> s' | Inl err \<Rightarrow> s)"
| "step DecreaseClick s = decreaseServings s"
| "step IncreaseClick s = increaseServings s"
| "step (CuisineChange v) s = s\<lparr>cuisine := v\<rparr>"
| "step ResetClick s = handleReset s"

inductive reachable :: "app \<Rightarrow> bool" where
  reach_start: "reachable initialState"
| reach_step: "reachable s \<Longrightarrow> enabled e s \<Longrightarrow> reachable (step e s)"


subsection \<open>The claimed and the actual edges of the view-state machine\<close>

text \<open>
  \<open>nextStage\<close> and \<open>claimedEdge\<close> follow the specification's words: the sequence idle,
  capturing, analyzing, reviewing, fetching, showing results, with the exceptions the
  claim lists (any edge into the error state, capture and cancel back to idle, reset
  from any state back to idle). \<open>handlerEdge\<close> is the table read off the handlers and the
  views that offer them.
\<close>

definition nextStage :: "LoadingState \<Rightarrow> LoadingState option" where
  "nextStage st =
     (case st of
        IDLE \<Rightarrow> Some CAPTURING
      | CAPTURING \<Rightarrow> Some ANALYZING
      | ANALYZING \<Rightarrow> Some REVIEW_INGREDIENTS
      | REVIEW_INGREDIENTS \<Rightarrow> Some FETCHING_RECIPES
      | FETCHING_RECIPES \<Rightarrow> Some SHOWING_RESULTS
      | SHOWING_RESULTS \<Rightarrow> None
      | ERROR \<Rightarrow> None)"

definition claimedEdge :: "LoadingState \<Rightarrow> LoadingState \<Rightarrow> bool" where
  "claimedEdge src dst \<longleftrightarrow> nextStage src = Some dst \<or> dst = ERROR \<or> dst = IDLE"

fun handlerEdge :: "event \<Rightarrow> LoadingState \<Rightarrow> LoadingState \<Rightarrow> bool" where
  "handlerEdge StartCameraClick src dst = ((src = IDLE \<or> src = ERROR) \<and> dst = CAPTURING)"
| "handlerEdge CameraDenied src dst = (dst = ERROR)"
| "handlerEdge AnalyzeClick src dst = ((src = IDLE \<or> src = ERROR) \<and> dst = ANALYZING)"
| "handlerEdge (AnalyzeSettled result) src dst =
     (case result of
        Inr found \<Rightarrow>
          if found = JNull \<or> lengthIsZero found then dst = ERROR
          else dst = REVIEW_INGREDIENTS
      | Inl err \<Rightarrow> dst = ERROR)"
| "handlerEdge GenerateClick src dst = (src = REVIEW_INGREDIENTS \<and> dst = FETCHING_RECIPES)"
| "handlerEdge (GenerateSettled result) src dst =
     (case result of Inr found \<Rightarrow> dst = SHOWING_RESULTS | Inl err \<Rightarrow> dst = ERROR)"
| "handlerEdge (CaptureClick frame) src dst = (src = CAPTURING \<and> dst = IDLE)"
| "handlerEdge CancelClick src dst = (src = CAPTURING \<and> dst = IDLE)"
| "handlerEdge ResetClick src dst =
     ((src = REVIEW_INGREDIENTS \<or> src = SHOWING_RESULTS) \<and> dst = IDLE)"
| "handlerEdge _ src dst = False"

text \<open>Running a list of events, each of which must be offered when its turn comes.\<close>

fun run :: "event list \<Rightarrow> app \<Rightarrow> app" where
  "run [] s = s"
| "run (e # es) s = run es (step e s)"

fun runnable :: "event list \<Rightarrow> app \<Rightarrow> bool" where
  "runnable [] s = True"
| "runnable (e # es) s = (enabled e s \<and> runnable es (step e s))"

definition photo :: jsstring where
  "photo = js ''data:image/jpeg;base64,AAAA''"

definition servingsOk :: "app \<Rightarrow> bool" where
  "servingsOk s \<longleftrightarrow> (\<exists>n. servings s = Fin n \<and> 1 \<le> n \<and> n \<le> 2 ^ 53)"

text \<open>
  Two ingredients as a reply can hold them: two eggs, and an object whose name and
  quantity are null; and the text of a reply with the latter.
\<close>

definition eggs :: json where
  "eggs = JObject [(js ''name'', JString (js ''egg'')), (js ''quantity'', JString (js ''2''))]"

definition unnamed :: json where
  "unnamed = JObject [(js ''name'', JNull), (js ''quantity'', JNull)]"

definition nullNameReply :: jsstring where
  \<open>nullNameReply = js ''[{"name":null,"quantity":null}]''\<close>

text \<open>
  A stand-in for \<^verbatim>\<open>JSON.parse\<close> in examples: it agrees with \<^verbatim>\<open>JSON.parse\<close> on the four
  texts it accepts.
\<close>

definition sampleParse :: "jsstring \<Rightarrow> thrown + json" where
  "sampleParse t =
     (if t = js ''[]'' then Inr (JArray [])
      else if t = js ''null'' then Inr JNull
      else if t = js ''42'' then Inr (JNumber (Finite 21 1))
      else if t = nullNameReply then Inr (JArray [unnamed])
      else Inl (ErrorObj (Message (js ''Unexpected token''))))"

section \<open>The instruction renderer (RecipeCard.tsx)\<close>

subsection \<open>The regular expression\<close>

text \<open>
  \<^verbatim>\<open>/\b(\d+(?:-\d+)?)\s*(hours?|hrs?|minutes?|mins?|seconds?|secs?)\b/gi\<close>

  A matcher maps a string and a position to the positions at which a match of its
  pattern can end, in the order in which the backtracking matcher of ECMAScript tries
  them: a sequence tries every end of its first part in turn, an alternative tries the
  left side first, a greedy quantifier tries the longer match first. The first element of
  the list is the match that \<^verbatim>\<open>exec\<close> reports.

  With the flag \<^verbatim>\<open>i\<close> and without \<^verbatim>\<open>u\<close>, a letter of the pattern matches a code unit
  with the same canonical form, its upper case; a code unit from 128 on never has an ASCII
  canonical form, so a letter of the pattern matches its two ASCII forms only. \<^verbatim>\<open>\d\<close> is
  an ASCII digit, \<^verbatim>\<open>\s\<close> is white space or a line terminator, and \<^verbatim>\<open>\b\<close> holds where
  exactly one of the two neighbours is a word character (a letter, a digit or the
  underscore, all ASCII).
\<close>

definition isWordChar :: "nat \<Rightarrow> bool" where
  "isWordChar c \<longleftrightarrow> isDigit c \<or> (65 \<le> c \<and> c \<le> 90) \<or> (97 \<le> c \<and> c \<le> 122) \<or> c = 95"

definition canonicalize :: "nat \<Rightarrow> nat" where
  "canonicalize c = (if 97 \<le> c \<and> c \<le> 122 then c - 32 else c)"

definition sameLetter :: "nat \<Rightarrow> nat \<Rightarrow> bool" where
  "sameLetter p c \<longleftrightarrow> c < 128 \<and> canonicalize c = canonicalize p"

type_synonym matcher = "jsstring \<Rightarrow> nat \<Rightarrow> nat list"

definition charM :: "(nat \<Rightarrow> bool) \<Rightarrow> matcher" where
  "charM P s i = (if i < length s \<and> P (s ! i) then [Suc i] else [])"

definition emptyM :: matcher where
  "emptyM s i = [i]"

definition seqM :: "matcher \<Rightarrow> matcher \<Rightarrow> matcher" where
  "seqM a b s i = concat (map (b s) (a s i))"

definition altM :: "matcher \<Rightarrow> matcher \<Rightarrow> matcher" where
  "altM a b s i = a s i @ b s i"

definition optM :: "matcher \<Rightarrow> matcher" where
  "optM a = altM a emptyM"

function starM :: "(nat \<Rightarrow> bool) \<Rightarrow> matcher" where
  "starM P s i = (if i < length s \<and> P (s ! i) then starM P s (Suc i) @ [i] else [i])"
  by pat_completeness auto
termination
  by (relation "measure (\<lambda>(P, s, i). length s - i)") auto

declare starM.simps [simp del]

definition plusM :: "(nat \<Rightarrow> bool) \<Rightarrow> matcher" where
  "plusM P = seqM (charM P) (starM P)"

fun wordM :: "jsstring \<Rightarrow> matcher" where
  "wordM [] = emptyM"
| "wordM (p # ps) = seqM (charM (sameLetter p)) (wordM ps)"

definition isWordAt :: "jsstring \<Rightarrow> nat \<Rightarrow> bool" where
  "isWordAt s i \<longleftrightarrow> i < length s \<and> isWordChar (s ! i)"

definition boundary :: "jsstring \<Rightarrow> nat \<Rightarrow> bool" where
  "boundary s i \<longleftrightarrow> (0 < i \<and> isWordAt s (i - 1)) \<noteq> isWordAt s i"

definition boundaryM :: matcher where
  "boundaryM s i = (if boundary s i then [i] else [])"

definition numberM :: matcher where
  "numberM = seqM (plusM isDigit) (optM (seqM (charM (\<lambda>c. c = 45)) (plusM isDigit)))"

definition pluralM :: "string \<Rightarrow> matcher" where
  "pluralM w = seqM (wordM (js w)) (optM (charM (sameLetter 115)))"

definition unitM :: matcher where
  "unitM =
     altM (pluralM ''hour'') (altM (pluralM ''hr'') (altM (pluralM ''minute'')
       (altM (pluralM ''min'') (altM (pluralM ''second'') (pluralM ''sec'')))))"

definition timeRegex :: "jsstring \<Rightarrow> nat \<Rightarrow> (nat \<times> nat \<times> nat) list" where
  "timeRegex s i =
     [(e1, b2, e3). b \<leftarrow> boundaryM s i, e1 \<leftarrow> numberM s b, b2 \<leftarrow> starM isWhiteSpace s e1,
        e3 \<leftarrow> unitM s b2, e \<leftarrow> boundaryM s e3]"

definition firstMatch :: "jsstring \<Rightarrow> nat \<Rightarrow> (nat \<times> nat \<times> nat) option" where
  "firstMatch s i = (case timeRegex s i of [] \<Rightarrow> None | m # _ \<Rightarrow> Some m)"

text \<open>
  \<^verbatim>\<open>timeRegex.exec(text)\<close> with the global flag: the search starts at \<open>lastIndex\<close> and moves
  on one code unit at a time; past the end of the string it fails. The result is the
  index of the match, the end of the first group, the start of the second group and the
  end of the match, which is the next \<open>lastIndex\<close>. The variable \<open>lastIndex\<close> of the
  source and the property of the expression are equal whenever \<^verbatim>\<open>exec\<close> is called, so
  the model has one of them.
\<close>

function exec :: "jsstring \<Rightarrow> nat \<Rightarrow> (nat \<times> nat \<times> nat \<times> nat) option" where
  "exec s lastIndex =
     (if length s < lastIndex then None
      else case firstMatch s lastIndex of
             Some (e1, b2, e3) \<Rightarrow> Some (lastIndex, e1, b2, e3)
           | None \<Rightarrow> exec s (Suc lastIndex))"
  by pat_completeness auto
termination
  by (relation "measure (\<lambda>(s, i). Suc (length s) - i)") auto

declare exec.simps [simp del]


text \<open>
  \<^verbatim>\<open>toLowerCase\<close> is applied to the text of the second group only, which consists of ASCII
  letters; the model maps the ASCII capitals and leaves every other code unit alone.
\<close>

definition lowerChar :: "nat \<Rightarrow> nat" where
  "lowerChar c = (if 65 \<le> c \<and> c \<le> 90 then c + 32 else c)"

definition toLowerCase :: "jsstring \<Rightarrow> jsstring" where
  "toLowerCase s = map lowerChar s"

definition unitWords :: "jsstring list" where
  "unitWords =
     [js ''hour'', js ''hours'', js ''hr'', js ''hrs'', js ''minute'', js ''minutes'',
      js ''min'', js ''mins'', js ''second'', js ''seconds'', js ''sec'', js ''secs'']"

definition lowerWord :: "jsstring \<Rightarrow> bool" where
  "lowerWord w \<longleftrightarrow> list_all (\<lambda>p. 97 \<le> p \<and> p \<le> 122) w"

definition allOn :: "(nat \<Rightarrow> bool) \<Rightarrow> jsstring \<Rightarrow> nat \<Rightarrow> nat \<Rightarrow> bool" where
  "allOn P s a b \<longleftrightarrow> a \<le> b \<and> b \<le> length s \<and> (\<forall>k \<in> {a..<b}. P (s ! k))"

lemma set_charM: "set (charM P s i) = {e. i < length s \<and> P (s ! i) \<and> e = Suc i}"
  by (auto simp: charM_def)

lemma set_seqM: "set (seqM a b s i) = (\<Union>m \<in> set (a s i). set (b s m))"
  by (simp add: seqM_def)

lemma set_altM: "set (altM a b s i) = set (a s i) \<union> set (b s i)"
  by (simp add: altM_def)

lemma set_optM: "set (optM a s i) = insert i (set (a s i))"
  by (simp add: optM_def altM_def emptyM_def)

lemma allOn_refl: "i \<le> length s \<Longrightarrow> allOn P s i i"
  by (simp add: allOn_def)

lemma allOn_step:
  "allOn P s i e \<longleftrightarrow> i \<le> length s \<and> (e = i \<or> (i < length s \<and> P (s ! i) \<and> allOn P s (Suc i) e))"
proof
  assume a: "allOn P s i e"
  show "i \<le> length s \<and> (e = i \<or> (i < length s \<and> P (s ! i) \<and> allOn P s (Suc i) e))"
  proof (cases "e = i")
    case True
    with a show ?thesis by (simp add: allOn_def)
  next
    case False
    with a have "i < e" "e \<le> length s" by (auto simp: allOn_def)
    moreover from a \<open>i < e\<close> have "P (s ! i)" by (simp add: allOn_def)
    moreover from a have "\<forall>k \<in> {Suc i..<e}. P (s ! k)" by (simp add: allOn_def)
    ultimately show ?thesis by (simp add: allOn_def)
  qed
next
  assume r: "i \<le> length s \<and> (e = i \<or> (i < length s \<and> P (s ! i) \<and> allOn P s (Suc i) e))"
  show "allOn P s i e"
  proof (cases "e = i")
    case True
    with r show ?thesis by (simp add: allOn_def)
  next
    case False
    with r have p: "P (s ! i)" and t: "allOn P s (Suc i) e" by auto
    have "\<forall>k \<in> {i..<e}. P (s ! k)"
    proof
      fix k assume "k \<in> {i..<e}"
      then have "k = i \<or> k \<in> {Suc i..<e}" by auto
      with p t show "P (s ! k)" by (auto simp: allOn_def)
    qed
    with t show ?thesis by (simp add: allOn_def)
  qed
qed

lemma set_starM: "i \<le> length s \<Longrightarrow> set (starM P s i) = {e. allOn P s i e}"
proof (induction P s i rule: starM.induct)
  case (1 P s i)
  have unfold: "\<And>e. allOn P s i e \<longleftrightarrow>
      i \<le> length s \<and> (e = i \<or> (i < length s \<and> P (s ! i) \<and> allOn P s (Suc i) e))"
    by (rule allOn_step)
  show ?case
  proof (cases "i < length s \<and> P (s ! i)")
    case True
    then have "set (starM P s i) = insert i (set (starM P s (Suc i)))"
      by (subst starM.simps) simp
    also from True "1.IH" have "set (starM P s (Suc i)) = {e. allOn P s (Suc i) e}"
      by simp
    finally have "set (starM P s i) = insert i {e. allOn P s (Suc i) e}" .
    with True unfold show ?thesis
      by auto
  next
    case False
    then have "set (starM P s i) = {i}"
      by (subst starM.simps) auto
    with False "1.prems" unfold show ?thesis
      by auto
  qed
qed

lemma set_plusM: "set (plusM P s i) = {e. i < e \<and> allOn P s i e}"
proof -
  have unfold: "\<And>e. allOn P s i e \<longleftrightarrow>
      i \<le> length s \<and> (e = i \<or> (i < length s \<and> P (s ! i) \<and> allOn P s (Suc i) e))"
    by (rule allOn_step)
  show ?thesis
  proof (cases "i < length s \<and> P (s ! i)")
    case True
    then have "set (plusM P s i) = {e. allOn P s (Suc i) e}"
      by (simp add: plusM_def set_seqM set_charM set_starM)
    moreover have "\<And>e. allOn P s (Suc i) e \<Longrightarrow> i < e"
      by (simp add: allOn_def)
    ultimately show ?thesis
      using True unfold by auto
  next
    case False
    then have "set (plusM P s i) = {}"
      by (auto simp: plusM_def set_seqM set_charM)
    with False unfold show ?thesis
      by auto
  qed
qed

lemma set_numberM:
  "e1 \<in> set (numberM s i) \<longleftrightarrow>
     (\<exists>d. i < d \<and> allOn isDigit s i d
        \<and> (e1 = d \<or> (d < length s \<and> s ! d = 45 \<and> Suc d < e1 \<and> allOn isDigit s (Suc d) e1)))"
  by (auto simp: numberM_def set_seqM set_optM set_plusM set_charM)

lemma sameLetter_lower: "97 \<le> p \<Longrightarrow> p \<le> 122 \<Longrightarrow> sameLetter p c \<longleftrightarrow> lowerChar c = p"
  by (auto simp: sameLetter_def canonicalize_def lowerChar_def)

lemma substring_take_drop: "a \<le> b \<Longrightarrow> b \<le> length s \<Longrightarrow> substring s a b = take (b - a) (drop a s)"
  by (simp add: substring_def Let_def min_def max_def)

lemma set_wordM:
  "lowerWord w \<Longrightarrow> i \<le> length s \<Longrightarrow>
     set (wordM w s i) =
       {e. e = i + length w \<and> e \<le> length s \<and> toLowerCase (take (length w) (drop i s)) = w}"
proof (induction w arbitrary: i)
  case Nil
  then show ?case
    by (auto simp: emptyM_def toLowerCase_def)
next
  case (Cons p ps)
  then have p: "97 \<le> p" "p \<le> 122" and ps: "lowerWord ps"
    by (simp_all add: lowerWord_def)
  show ?case
  proof (cases "i < length s")
    case True
    then have d: "drop i s = s ! i # drop (Suc i) s"
      by (simp add: Cons_nth_drop_Suc)
    from True have "Suc i \<le> length s" by simp
    note IH = Cons.IH [OF ps this]
    from True show ?thesis
      by (auto simp: set_seqM set_charM IH sameLetter_lower [OF p] d toLowerCase_def)
  next
    case False
    then show ?thesis
      by (auto simp: set_seqM set_charM)
  qed
qed

lemma set_pluralM:
  assumes "lowerWord (js w)" and "i \<le> length s"
  shows "set (pluralM w s i) =
     {e. i \<le> e \<and> e \<le> length s
        \<and> (toLowerCase (substring s i e) = js w \<or> toLowerCase (substring s i e) = js w @ [115])}"
proof -
  define n where "n = length (js w)"
  have s115: "\<And>c. sameLetter 115 c \<longleftrightarrow> lowerChar c = 115"
    by (rule sameLetter_lower) simp_all
  have L: "set (pluralM w s i) =
      {e. i + n \<le> length s \<and> toLowerCase (take n (drop i s)) = js w
          \<and> (e = i + n \<or> (e = Suc (i + n) \<and> i + n < length s \<and> lowerChar (s ! (i + n)) = 115))}"
    by (auto simp: pluralM_def set_seqM set_optM set_charM set_wordM [OF assms] n_def s115)
  have R: "\<And>e. (i \<le> e \<and> e \<le> length s
        \<and> (toLowerCase (substring s i e) = js w \<or> toLowerCase (substring s i e) = js w @ [115]))
      \<longleftrightarrow> (i + n \<le> length s \<and> toLowerCase (take n (drop i s)) = js w
          \<and> (e = i + n \<or> (e = Suc (i + n) \<and> i + n < length s \<and> lowerChar (s ! (i + n)) = 115)))"
  proof
    fix e
    assume a: "i \<le> e \<and> e \<le> length s
        \<and> (toLowerCase (substring s i e) = js w \<or> toLowerCase (substring s i e) = js w @ [115])"
    then have sub: "substring s i e = take (e - i) (drop i s)"
      by (simp add: substring_take_drop)
    from a have "e - i \<le> length s - i"
      by (simp add: diff_le_mono)
    then have len: "length (substring s i e) = e - i"
      by (simp add: sub min_absorb2)
    from a consider (plain) "toLowerCase (substring s i e) = js w"
      | (plural) "toLowerCase (substring s i e) = js w @ [115]" by blast
    then show "i + n \<le> length s \<and> toLowerCase (take n (drop i s)) = js w
          \<and> (e = i + n \<or> (e = Suc (i + n) \<and> i + n < length s \<and> lowerChar (s ! (i + n)) = 115))"
    proof cases
      case plain
      then have "length (substring s i e) = n"
        by (metis length_map n_def toLowerCase_def)
      with len a have e: "e = i + n" by simp
      with plain sub a show ?thesis by simp
    next
      case plural
      then have "length (substring s i e) = Suc n"
        by (metis length_map length_append_singleton n_def toLowerCase_def)
      with len a have e: "e = Suc (i + n)" by simp
      with a have lt: "i + n < length s" by simp
      then have "take (Suc n) (drop i s) = take n (drop i s) @ [s ! (i + n)]"
        by (simp add: take_Suc_conv_app_nth)
      with plural sub e have "toLowerCase (take n (drop i s)) @ [lowerChar (s ! (i + n))] = js w @ [115]"
        by (simp add: toLowerCase_def)
      with e lt show ?thesis by simp
    qed
  next
    fix e
    assume a: "i + n \<le> length s \<and> toLowerCase (take n (drop i s)) = js w
          \<and> (e = i + n \<or> (e = Suc (i + n) \<and> i + n < length s \<and> lowerChar (s ! (i + n)) = 115))"
    then consider (plain) "e = i + n"
      | (plural) "e = Suc (i + n)" "i + n < length s" "lowerChar (s ! (i + n)) = 115" by blast
    then show "i \<le> e \<and> e \<le> length s
        \<and> (toLowerCase (substring s i e) = js w \<or> toLowerCase (substring s i e) = js w @ [115])"
    proof cases
      case plain
      with a show ?thesis by (simp add: substring_take_drop)
    next
      case plural
      then have "take (Suc n) (drop i s) = take n (drop i s) @ [s ! (i + n)]"
        by (simp add: take_Suc_conv_app_nth)
      with plural a show ?thesis
        by (simp add: substring_take_drop toLowerCase_def)
    qed
  qed
  from L R show ?thesis by auto
qed

lemma set_unitM:
  assumes "i \<le> length s"
  shows "set (unitM s i) =
     {e. i \<le> e \<and> e \<le> length s \<and> toLowerCase (substring s i e) \<in> set unitWords}"
proof -
  have w: "lowerWord (js ''hour'')" "lowerWord (js ''hr'')" "lowerWord (js ''minute'')"
    "lowerWord (js ''min'')" "lowerWord (js ''second'')" "lowerWord (js ''sec'')"
    by (simp_all add: lowerWord_def js_def)
  have s: "\<And>w. js w @ [115] = js (w @ ''s'')"
    by (simp add: js_def)
  show ?thesis
    unfolding unitM_def set_altM set_pluralM [OF w(1) assms] set_pluralM [OF w(2) assms]
      set_pluralM [OF w(3) assms] set_pluralM [OF w(4) assms] set_pluralM [OF w(5) assms]
      set_pluralM [OF w(6) assms] unitWords_def s
    by auto
qed

lemma set_timeRegex:
  "(e1, b2, e3) \<in> set (timeRegex s i) \<longleftrightarrow>
     boundary s i \<and> e1 \<in> set (numberM s i) \<and> allOn isWhiteSpace s e1 b2
     \<and> b2 \<le> e3 \<and> e3 \<le> length s \<and> toLowerCase (substring s b2 e3) \<in> set unitWords
     \<and> boundary s e3"
proof -
  have raw: "(e1, b2, e3) \<in> set (timeRegex s i) \<longleftrightarrow>
      boundary s i \<and> e1 \<in> set (numberM s i) \<and> b2 \<in> set (starM isWhiteSpace s e1)
      \<and> e3 \<in> set (unitM s b2) \<and> boundary s e3"
    by (auto simp: timeRegex_def boundaryM_def)
  show ?thesis
  proof (cases "e1 \<in> set (numberM s i)")
    case True
    then have e1: "e1 \<le> length s"
      by (auto simp: set_numberM allOn_def)
    show ?thesis
    proof (cases "allOn isWhiteSpace s e1 b2")
      case True
      then have b2: "b2 \<le> length s" by (simp add: allOn_def)
      show ?thesis
        unfolding raw by (simp add: set_starM [OF e1] set_unitM [OF b2])
    next
      case False
      then show ?thesis
        unfolding raw by (simp add: set_starM [OF e1])
    qed
  next
    case False
    then show ?thesis unfolding raw by simp
  qed
qed

lemma timeRegex_bounds:
  assumes "(e1, b2, e3) \<in> set (timeRegex s i)"
  shows "i < e1 \<and> e1 \<le> b2 \<and> b2 < e3 \<and> e3 \<le> length s"
proof -
  from assms have n: "e1 \<in> set (numberM s i)" and w: "allOn isWhiteSpace s e1 b2"
    and u: "b2 \<le> e3" "e3 \<le> length s" "toLowerCase (substring s b2 e3) \<in> set unitWords"
    by (simp_all add: set_timeRegex)
  from n have "i < e1"
    by (auto simp: set_numberM allOn_def)
  moreover from w have "e1 \<le> b2" by (simp add: allOn_def)
  moreover have "b2 \<noteq> e3"
  proof
    assume "b2 = e3"
    then have "substring s b2 e3 = []"
      by (simp add: substring_def Let_def)
    with u(3) show False
      by (simp add: toLowerCase_def unitWords_def js_def)
  qed
  ultimately show ?thesis using u by simp
qed

lemma firstMatch_Some: "firstMatch s i = Some m \<Longrightarrow> m \<in> set (timeRegex s i)"
  by (auto simp: firstMatch_def split: list.splits)

lemma firstMatch_None: "firstMatch s i = None \<longleftrightarrow> set (timeRegex s i) = {}"
  by (auto simp: firstMatch_def split: list.splits)

lemma exec_Some:
  "exec s lastIndex = Some (index, e1, b2, e3) \<Longrightarrow>
     lastIndex \<le> index \<and> index \<le> length s \<and> firstMatch s index = Some (e1, b2, e3)
     \<and> (\<forall>j. lastIndex \<le> j \<and> j < index \<longrightarrow> firstMatch s j = None)"
proof (induction s lastIndex rule: exec.induct)
  case (1 s lastIndex)
  from "1.prems" have le: "lastIndex \<le> length s"
    by (subst (asm) exec.simps) (simp split: if_splits)
  show ?case
  proof (cases "firstMatch s lastIndex")
    case None
    with le "1.prems" have nxt: "exec s (Suc lastIndex) = Some (index, e1, b2, e3)"
      by (subst (asm) exec.simps) simp
    from le None have "Suc lastIndex \<le> index \<and> index \<le> length s
        \<and> firstMatch s index = Some (e1, b2, e3)
        \<and> (\<forall>j. Suc lastIndex \<le> j \<and> j < index \<longrightarrow> firstMatch s j = None)"
      using "1.IH" nxt by simp
    then have rest: "Suc lastIndex \<le> index" "index \<le> length s"
        "firstMatch s index = Some (e1, b2, e3)"
        "\<And>j. Suc lastIndex \<le> j \<Longrightarrow> j < index \<Longrightarrow> firstMatch s j = None"
      by simp_all
    have "firstMatch s j = None" if "lastIndex \<le> j" "j < index" for j
    proof (cases "j = lastIndex")
      case True
      with None show ?thesis by simp
    next
      case False
      with that have "Suc lastIndex \<le> j" by simp
      with that show ?thesis by (simp add: rest(4))
    qed
    with rest show ?thesis by simp
  next
    case (Some m)
    with le "1.prems" have "index = lastIndex" "m = (e1, b2, e3)"
      by (subst (asm) exec.simps, auto split: prod.splits)+
    with Some le show ?thesis by auto
  qed
qed

lemma exec_None:
  "exec s lastIndex = None \<Longrightarrow> lastIndex \<le> j \<Longrightarrow> j \<le> length s \<Longrightarrow> firstMatch s j = None"
proof (induction s lastIndex rule: exec.induct)
  case (1 s lastIndex)
  from "1.prems" have le: "lastIndex \<le> length s" by simp
  with "1.prems"(1) have none: "firstMatch s lastIndex = None"
    by (subst (asm) exec.simps) (auto split: option.splits prod.splits)
  with le "1.prems"(1) have nxt: "exec s (Suc lastIndex) = None"
    by (subst (asm) exec.simps) simp
  show ?case
  proof (cases "j = lastIndex")
    case True
    with none show ?thesis by simp
  next
    case False
    with "1.prems" have "Suc lastIndex \<le> j" by simp
    with le none nxt "1.prems" show ?thesis
      using "1.IH" by simp
  qed
qed

lemma exec_advances:
  assumes "exec s lastIndex = Some (index, e1, b2, e3)"
  shows "lastIndex \<le> index \<and> index < e1 \<and> e1 \<le> b2 \<and> b2 < e3 \<and> e3 \<le> length s"
proof -
  from assms have "lastIndex \<le> index" and "firstMatch s index = Some (e1, b2, e3)"
    by (simp_all add: exec_Some)
  then show ?thesis
    using timeRegex_bounds [OF firstMatch_Some] by simp
qed

subsection \<open>The renderer\<close>

text \<open>
  \<^verbatim>\<open>parseInt(s, 10)\<close> skips leading white space and a sign, reads the longest prefix of
  digits and yields NaN when there is none, otherwise the Number value of the integer
  read. (Beyond 20 significant digits ECMAScript lets an implementation approximate;
  the model rounds correctly there too.) \<open>splitHead\<close> is \<^verbatim>\<open>s.split(sep)[0]\<close>.
\<close>

definition decimal :: "jsstring \<Rightarrow> nat" where
  "decimal ds = foldl (\<lambda>a c. 10 * a + (c - 48)) 0 ds"

definition parseInt10 :: "jsstring \<Rightarrow> jsnum" where
  "parseInt10 s =
     (let t = dropWhile isWhiteSpace s;
          negative = (t \<noteq> [] \<and> hd t = 45);
          u = (if t \<noteq> [] \<and> (hd t = 45 \<or> hd t = 43) then tl t else t);
          ds = takeWhile isDigit u
      in if ds = [] then NaN
         else toF (if negative then - int (decimal ds) else int (decimal ds)))"

definition splitHead :: "nat \<Rightarrow> jsstring \<Rightarrow> jsstring" where
  "splitHead sep s = takeWhile (\<lambda>c. c \<noteq> sep) s"

definition startsWith :: "jsstring \<Rightarrow> jsstring \<Rightarrow> bool" where
  "startsWith s p \<longleftrightarrow> take (length p) s = p"

datatype part = Text jsstring | TimerButton nat jsstring jsnum

definition multiplierOf :: "jsstring \<Rightarrow> jsnum" where
  "multiplierOf unitPart =
     (let multiplier = Fin 60;
          multiplier = (if startsWith unitPart (js ''sec'') then Fin 1 else multiplier);
          multiplier = (if startsWith unitPart (js ''hour'') \<or> startsWith unitPart (js ''hr'')
                        then Fin 3600 else multiplier)
      in multiplier)"

definition secondsOf :: "jsstring \<Rightarrow> nat \<times> nat \<times> nat \<times> nat \<Rightarrow> jsnum" where
  "secondsOf text m =
     (case m of (index, e1, b2, e3) \<Rightarrow>
        let numberPart = substring text index e1;
            unitPart = toLowerCase (substring text b2 e3);
            parsed = parseInt10 (splitHead 45 numberPart);
            val = (if parsed = NaN then Fin 0 else parsed)
        in num_mul val (multiplierOf unitPart))"

definition partOfMatch :: "jsstring \<Rightarrow> nat \<times> nat \<times> nat \<times> nat \<Rightarrow> part" where
  "partOfMatch text m =
     (case m of (index, e1, b2, e3) \<Rightarrow>
        let fullMatch = substring text index e3;
            seconds = secondsOf text m
        in if num_gt seconds (Fin 0) then TimerButton index fullMatch seconds
           else Text fullMatch)"

function renderLoop :: "jsstring \<Rightarrow> nat \<Rightarrow> part list \<Rightarrow> part list" where
  "renderLoop text lastIndex parts =
     (case exec text lastIndex of
        None \<Rightarrow>
          if lastIndex < length text
          then parts @ [Text (substring text lastIndex (length text))]
          else parts
      | Some (index, e1, b2, e3) \<Rightarrow>
          renderLoop text e3
            ((if lastIndex < index then parts @ [Text (substring text lastIndex index)]
              else parts)
             @ [partOfMatch text (index, e1, b2, e3)]))"
  by pat_completeness auto
termination
proof (relation "measure (\<lambda>(t, lastIndex, parts). Suc (length t) - lastIndex)")
  show "wf (measure (\<lambda>(t, lastIndex, parts). Suc (length t) - lastIndex))"
    by simp
next
  fix t :: jsstring and lastIndex :: nat and parts :: "part list"
    and x2 :: "nat \<times> nat \<times> nat \<times> nat" and index y e1 ya b2 e3
  assume "exec t lastIndex = Some x2" "(index, y) = x2" "(e1, ya) = y" "(b2, e3) = ya"
  then have "exec t lastIndex = Some (index, e1, b2, e3)" by simp
  then have "lastIndex < e3 \<and> e3 \<le> length t"
    using exec_advances by fastforce
  then show "((t, e3, (if lastIndex < index
                then parts @ [Text (substring t lastIndex index)] else parts)
               @ [partOfMatch t (index, e1, b2, e3)]),
              t, lastIndex, parts)
             \<in> measure (\<lambda>(t, lastIndex, parts). Suc (length t) - lastIndex)"
    by (simp add: diff_less_mono2)
qed

declare renderLoop.simps [simp del]

datatype rendered = Fragment "part list" | Plain jsstring

definition renderInstructionText :: "jsstring \<Rightarrow> rendered" where
  "renderInstructionText text =
     (let parts = renderLoop text 0 []
      in if 0 < length parts then Fragment parts else Plain text)"

definition label :: "part \<Rightarrow> jsstring" where
  "label p = (case p of Text t \<Rightarrow> t | TimerButton key shown seconds \<Rightarrow> shown)"

definition shownText :: "rendered \<Rightarrow> jsstring" where
  "shownText r = (case r of Fragment parts \<Rightarrow> concat (map label parts) | Plain t \<Rightarrow> t)"

text \<open>
  The successive results of \<^verbatim>\<open>exec\<close> from \<open>lastIndex\<close> on, and the parts that the loop
  lays around them.
\<close>

function matches :: "jsstring \<Rightarrow> nat \<Rightarrow> (nat \<times> nat \<times> nat \<times> nat) list" where
  "matches s lastIndex =
     (case exec s lastIndex of
        None \<Rightarrow> []
      | Some (index, e1, b2, e3) \<Rightarrow> (index, e1, b2, e3) # matches s e3)"
  by pat_completeness auto
termination
proof (relation "measure (\<lambda>(t, lastIndex). Suc (length t) - lastIndex)")
  show "wf (measure (\<lambda>(t, lastIndex). Suc (length t) - lastIndex))"
    by simp
next
  fix t :: jsstring and lastIndex :: nat
    and x2 :: "nat \<times> nat \<times> nat \<times> nat" and index y e1 ya b2 e3
  assume "exec t lastIndex = Some x2" "(index, y) = x2" "(e1, ya) = y" "(b2, e3) = ya"
  then have "exec t lastIndex = Some (index, e1, b2, e3)" by simp
  then have "lastIndex < e3 \<and> e3 \<le> length t"
    using exec_advances by fastforce
  then show "((t, e3), t, lastIndex) \<in> measure (\<lambda>(t, lastIndex). Suc (length t) - lastIndex)"
    by (simp add: diff_less_mono2)
qed

declare matches.simps [simp del]

fun interleave :: "jsstring \<Rightarrow> nat \<Rightarrow> (nat \<times> nat \<times> nat \<times> nat) list \<Rightarrow> part list" where
  "interleave s lastIndex [] =
     (if lastIndex < length s then [Text (substring s lastIndex (length s))] else [])"
| "interleave s lastIndex ((index, e1, b2, e3) # ms) =
     (if lastIndex < index then [Text (substring s lastIndex index)] else [])
     @ [partOfMatch s (index, e1, b2, e3)] @ interleave s e3 ms"


subsection \<open>Duration phrases, as the specification words them\<close>

text \<open>
  \<open>durationPhrase s i d e1 b2 e3\<close>: in \<open>s\<close>, a number starts at \<open>i\<close> on a word boundary,
  its lower bound ends at \<open>d\<close>, the number (with the upper bound after a dash, if there is
  one) ends at \<open>e1\<close>, white space follows up to \<open>b2\<close>, and a time unit in any mix of cases
  ends at \<open>e3\<close> on a word boundary. \<open>unitSeconds\<close> is the number of seconds of a unit.
\<close>

definition durationPhrase :: "jsstring \<Rightarrow> nat \<Rightarrow> nat \<Rightarrow> nat \<Rightarrow> nat \<Rightarrow> nat \<Rightarrow> bool" where
  "durationPhrase s i d e1 b2 e3 \<longleftrightarrow>
     boundary s i \<and> i < d \<and> allOn isDigit s i d
     \<and> (e1 = d \<or> (d < length s \<and> s ! d = 45 \<and> Suc d < e1 \<and> allOn isDigit s (Suc d) e1))
     \<and> allOn isWhiteSpace s e1 b2
     \<and> b2 \<le> e3 \<and> e3 \<le> length s \<and> toLowerCase (substring s b2 e3) \<in> set unitWords
     \<and> boundary s e3"

definition unitSeconds :: "jsstring \<Rightarrow> nat" where
  "unitSeconds u =
     (if u \<in> set [js ''second'', js ''seconds'', js ''sec'', js ''secs''] then 1
      else if u \<in> set [js ''minute'', js ''minutes'', js ''min'', js ''mins''] then 60
      else 3600)"

section \<open>The countdown timer (TimerOverlay.tsx)\<close>

text \<open>
  The state is the three \<^verbatim>\<open>useState\<close> variables; \<open>durationSeconds\<close> is a property of the
  component. The overlay is mounted by the recipe card only, with the seconds of a timer
  trigger, a non-negative integer-valued number or infinity.

  The second effect runs after every render in which \<open>isActive\<close> or \<open>timeLeft\<close> changed.
  It arms a one-second interval while the timer is active with time left, and otherwise,
  at zero exactly, marks the timer finished and inactive; the interval it armed is cleared
  before it runs again. So the interval callback, \<open>tick\<close>, fires only while the interval
  is armed, and one second of the timer is the callback followed by the effect.
\<close>

record timer =
  timeLeft :: jsnum
  isActive :: bool
  isFinished :: bool


definition openEffect :: "jsnum \<Rightarrow> bool \<Rightarrow> timer \<Rightarrow> timer" where
  "openEffect durationSeconds isOpen t =
     (if isOpen then t\<lparr>timeLeft := durationSeconds, isActive := True, isFinished := False\<rparr>
      else t)"

definition intervalArmed :: "timer \<Rightarrow> bool" where
  "intervalArmed t \<longleftrightarrow> isActive t \<and> num_gt (timeLeft t) (Fin 0)"

definition countdownEffect :: "timer \<Rightarrow> timer" where
  "countdownEffect t =
     (if intervalArmed t then t
      else if num_eq (timeLeft t) (Fin 0) then t\<lparr>isFinished := True, isActive := False\<rparr>
      else t)"

definition tick :: "timer \<Rightarrow> timer" where
  "tick t = (if intervalArmed t then t\<lparr>timeLeft := num_sub (timeLeft t) (Fin 1)\<rparr> else t)"

definition second :: "timer \<Rightarrow> timer" where
  "second t = countdownEffect (tick t)"



section \<open>Properties of strings and numbers\<close>

lemma dropWhile_all: "(\<forall>c \<in> set (dropWhile P s). P c) \<longleftrightarrow> (\<forall>c \<in> set s. P c)"
proof
  assume all: "\<forall>c \<in> set (dropWhile P s). P c"
  have "dropWhile P s = []"
  proof (rule ccontr)
    assume ne: "dropWhile P s \<noteq> []"
    then have "\<not> P (hd (dropWhile P s))"
      by (rule hd_dropWhile)
    moreover from ne have "hd (dropWhile P s) \<in> set (dropWhile P s)"
      by (rule hd_in_set)
    ultimately show False using all by blast
  qed
  then show "\<forall>c \<in> set s. P c"
    by (simp only: dropWhile_eq_Nil_conv)
next
  assume "\<forall>c \<in> set s. P c"
  then show "\<forall>c \<in> set (dropWhile P s). P c"
    by (blast dest: set_dropWhileD)
qed

lemma trim_empty_iff: "trim s = [] \<longleftrightarrow> (\<forall>c \<in> set s. isWhiteSpace c)"
  by (simp add: trim_def dropWhile_all)

lemma trim_decompose:
  "\<exists>pre post. s = pre @ trim s @ post \<and> (\<forall>c \<in> set pre. isWhiteSpace c)
     \<and> (\<forall>c \<in> set post. isWhiteSpace c)"
proof -
  define d where "d = dropWhile isWhiteSpace s"
  define t where "t = takeWhile isWhiteSpace (rev d)"
  have 1: "s = takeWhile isWhiteSpace s @ d"
    by (simp add: d_def)
  have "rev d = t @ dropWhile isWhiteSpace (rev d)"
    by (simp add: t_def)
  then have "rev (rev d) = rev (t @ dropWhile isWhiteSpace (rev d))"
    by (rule arg_cong)
  then have 2: "d = trim s @ rev t"
    by (simp add: trim_def d_def)
  have 3: "\<forall>c \<in> set (takeWhile isWhiteSpace s). isWhiteSpace c"
    by (blast dest: set_takeWhileD)
  have 4: "\<forall>c \<in> set (rev t). isWhiteSpace c"
    unfolding t_def by (auto dest: set_takeWhileD)
  from 1 2 have "s = takeWhile isWhiteSpace s @ trim s @ rev t"
    by simp
  with 3 4 show ?thesis by blast
qed

lemma toF_at_limit: "toF (2 ^ 53) = Fin (2 ^ 53)"
  by (simp add: toF_def round53_def bitlen.simps)

lemma toF_above_limit: "toF (2 ^ 53 + 1) = Fin (2 ^ 53)"
  by (simp add: toF_def round53_def bitlen.simps)

lemma add_one_bounded:
  assumes "1 \<le> n" and "n \<le> 2 ^ 53"
  shows "\<exists>m. num_add (Fin n) (Fin 1) = Fin m \<and> 1 \<le> m \<and> m \<le> 2 ^ 53"
proof -
  consider "n + 1 < 2 ^ 53" | "n + 1 = 2 ^ 53" | "n = 2 ^ 53"
    using assms by linarith
  then show ?thesis
  proof cases
    case 1
    with assms have "toF (n + 1) = Fin (n + 1)"
      by (intro toF_exact) simp
    with assms 1 show ?thesis by simp
  next
    case 2
    then have "toF (n + 1) = Fin (2 ^ 53)"
      using toF_at_limit by simp
    then show ?thesis by simp
  next
    case 3
    then have "toF (n + 1) = Fin (2 ^ 53)"
      using toF_above_limit by simp
    then show ?thesis by simp
  qed
qed

lemma add_one_exact: "0 \<le> n \<Longrightarrow> n < 2 ^ 53 \<Longrightarrow> num_add (Fin n) (Fin 1) = Fin (n + 1)"
proof -
  assume a: "0 \<le> n" "n < 2 ^ 53"
  then consider "n + 1 < 2 ^ 53" | "n + 1 = 2 ^ 53" by linarith
  then show ?thesis
  proof cases
    case 1
    with a have "toF (n + 1) = Fin (n + 1)"
      by (intro toF_exact) simp
    then show ?thesis by simp
  next
    case 2
    then show ?thesis using toF_at_limit by simp
  qed
qed

lemma sub_one_exact: "1 \<le> n \<Longrightarrow> n \<le> 2 ^ 53 \<Longrightarrow> num_sub (Fin n) (Fin 1) = Fin (n - 1)"
proof -
  assume a: "1 \<le> n" "n \<le> 2 ^ 53"
  then have "toF (n - 1) = Fin (n - 1)"
    by (intro toF_exact) simp
  then show ?thesis by (simp add: num_sub_def)
qed

section \<open>Properties of the application\<close>

lemma loadingState_stopCamera [simp]: "loadingState (stopCamera s) = loadingState s"
  by (simp add: stopCamera_def)

lemma servings_stopCamera [simp]: "servings (stopCamera s) = servings s"
  by (simp add: stopCamera_def)

lemmas handler_defs =
  handleInstallChoice_def handleStartCamera_def handleStartCamera_granted_def
  handleStartCamera_catch_def handleAnalyze_def handleAnalyze_settled_def
  handleGenerateRecipes_def handleGenerateRecipes_settled_def handleCaptureImage_def
  cancelCapture_def handleFileChange_def reader_onload_def reader_failed_def
  removeImage_def removeIngredient_def addIngredient_def decreaseServings_def
  increaseServings_def handleReset_def filterOut_def spreadWith_def errorMessage_def

lemma names_differ [simp]:
  "js ''name'' \<noteq> js ''quantity''" "js ''quantity'' \<noteq> js ''name''"
  by (simp_all add: js_def)

lemma isIngredient_ingredientRecord: "isIngredient (ingredientRecord n)"
  by (simp add: isIngredient_def ingredientRecord_def property_def isString_def)

lemma ingredientRecord_properties:
  "property (js ''name'') (ingredientRecord n) = Some (JString n)"
  "property (js ''quantity'') (ingredientRecord n) = Some (JString [])"
  by (simp_all add: ingredientRecord_def property_def)

lemma isIngredient_eggs: "isIngredient eggs"
  by (simp add: isIngredient_def eggs_def property_def isString_def)

lemma unnamed_properties:
  "property (js ''name'') unnamed = Some JNull \<and> property (js ''quantity'') unnamed = Some JNull"
  by (simp add: unnamed_def property_def)

lemma validChild_printable: "validChild v \<Longrightarrow> \<not> unprintable v"
  by (induction v) (auto simp: list_all_iff list_ex_iff)

lemma rowRenders_item: "rowRenders i \<Longrightarrow> \<not> itemThrows i"
  by (auto simp: rowRenders_def itemThrows_def validChildOpt_def unprintableOpt_def
      validChild_printable split: option.splits)

lemma isIngredient_rowRenders: "isIngredient i \<Longrightarrow> rowRenders i"
  by (auto simp: isIngredient_def rowRenders_def isString_def validChildOpt_def property_def
      split: option.splits json.splits)

text \<open>
  With a list that the review view renders, and so with a list of the declared shape,
  the prompt of the recipe request is built without a throw.
\<close>

lemma reviewRenders_prompt: "reviewRenders v \<Longrightarrow> \<not> promptThrows v"
  by (cases v) (auto simp: reviewRenders_def promptThrows_def list_all_iff list_ex_iff
      rowRenders_item)

lemma isIngredientList_renders: "isIngredientList v \<Longrightarrow> reviewRenders v"
  by (cases v) (auto simp: reviewRenders_def isIngredientList_def list_all_iff
      isIngredient_rowRenders)

lemma reachable_run: "reachable s \<Longrightarrow> runnable es s \<Longrightarrow> reachable (run es s)"
  by (induction es arbitrary: s) (auto intro: reach_step)

subsection \<open>Reset\<close>

text \<open>
  Claim C6. The reset action restores the session state to its initial values: the view
  state is idle, the image, ingredient and recipe lists are empty, the error message is
  null, servings is 1, the cuisine is "Open" and the pending ingredient input is empty;
  the camera stream is released as well. Only the install prompt and the operations
  still in flight are left as they are, so the state after a reset is the initial state
  up to those. Reset is idempotent.
\<close>

theorem handleReset_restores:
  "loadingState (handleReset s) = IDLE \<and> images (handleReset s) = []
   \<and> ingredients (handleReset s) = JArray [] \<and> recipes (handleReset s) = JArray []
   \<and> error (handleReset s) = None \<and> servings (handleReset s) = Fin 1
   \<and> cuisine (handleReset s) = js ''Open'' \<and> newIngredientInput (handleReset s) = []
   \<and> streamRef (handleReset s) = False
   \<and> handleReset s =
       initialState\<lparr>deferredPrompt := deferredPrompt s, pendingCamera := pendingCamera s,
         pendingAnalyze := pendingAnalyze s, pendingGenerate := pendingGenerate s,
         pendingReads := pendingReads s\<rparr>
   \<and> handleReset (handleReset s) = handleReset s"
  by (simp add: handleReset_def stopCamera_def initialState_def)

subsection \<open>Adding an ingredient by hand\<close>

lemma identify_nullNameReply:
  "identifyIngredientsFromImage sampleParse (Resolved \<lparr>responseText = Some nullNameReply\<rparr>)
     = Inr (JArray [unnamed])"
proof -
  have "jsonText \<lparr>responseText = Some nullNameReply\<rparr> = nullNameReply"
    by (simp add: jsonText_def trim_def truthy_def nullNameReply_def js_def isWhiteSpace_def)
  moreover have "sampleParse nullNameReply = Inr (JArray [unnamed])"
    by (simp add: sampleParse_def nullNameReply_def js_def)
  ultimately show ?thesis
    by (simp add: identifyIngredientsFromImage_def)
qed

text \<open>
  Claim C7, as stated, fails in its last part. The ingredient list is also written by
  the analysis, with the value that \<^verbatim>\<open>JSON.parse\<close> gave for the reply and that nothing
  checks. After a reply whose text is \<^verbatim>\<open>[{"name":null,"quantity":null}]\<close>, the
  application is in the review view, which renders this list, and the list holds an
  ingredient whose name is null; adding an ingredient by hand leaves that element where
  it is.
\<close>

theorem identified_list_holds_null_name:
  "reachable (run [FileChange True, FileLoaded photo, AnalyzeClick,
       AnalyzeSettled (identifyIngredientsFromImage sampleParse
         (Resolved \<lparr>responseText = Some nullNameReply\<rparr>))] initialState)
   \<and> loadingState (run [FileChange True, FileLoaded photo, AnalyzeClick,
       AnalyzeSettled (identifyIngredientsFromImage sampleParse
         (Resolved \<lparr>responseText = Some nullNameReply\<rparr>))] initialState)
       = REVIEW_INGREDIENTS
   \<and> ingredients (run [FileChange True, FileLoaded photo, AnalyzeClick,
       AnalyzeSettled (identifyIngredientsFromImage sampleParse
         (Resolved \<lparr>responseText = Some nullNameReply\<rparr>))] initialState)
       = JArray [unnamed]
   \<and> reviewRenders (JArray [unnamed])
   \<and> property (js ''name'') unnamed = Some JNull
   \<and> \<not> isIngredient unnamed
   \<and> ingredients (run [FileChange True, FileLoaded photo, AnalyzeClick,
       AnalyzeSettled (identifyIngredientsFromImage sampleParse
         (Resolved \<lparr>responseText = Some nullNameReply\<rparr>)),
       InputChange (js ''egg''), AddIngredientAction] initialState)
       = JArray [unnamed, ingredientRecord (js ''egg'')]"
proof -
  have "runnable [FileChange True, FileLoaded photo, AnalyzeClick,
       AnalyzeSettled (Inr (JArray [unnamed]))] initialState"
    by (simp add: handler_defs startView_def initialState_def lengthIsZero_def)
  with reach_start have r: "reachable (run [FileChange True, FileLoaded photo, AnalyzeClick,
       AnalyzeSettled (Inr (JArray [unnamed]))] initialState)"
    by (rule reachable_run)
  have t: "trim (js ''egg'') = js ''egg''"
    by (simp add: trim_def js_def isWhiteSpace_def)
  have ne: "js ''egg'' \<noteq> []"
    by (simp add: js_def)
  have v: "reviewRenders (JArray [unnamed])"
    by (simp add: reviewRenders_def rowRenders_def validChildOpt_def unnamed_properties)
       (simp add: unnamed_def)
  have n: "\<not> isIngredient unnamed"
    by (simp add: isIngredient_def isString_def unnamed_properties)
  from r v n show ?thesis
    by (simp add: identify_nullNameReply handler_defs startView_def initialState_def
        lengthIsZero_def t ne truthy_def unnamed_properties)
qed

text \<open>
  Claim C7, amended. For every pending input and every state whose ingredient list is
  an array, as it is wherever the review view renders: when the input has a character
  that is not white space, the trimmed input is not empty, the record with the trimmed
  input as name and the empty string as quantity is appended to the list and the input
  is cleared, nothing else changes; the appended record has a name and a quantity that
  are strings, so a list whose elements all have the declared shape keeps it. When the
  input is empty or white space only, the state is unchanged, whatever the list is.
  The elements that the analysis wrote are as the reply gave them.
\<close>

theorem addIngredient_spec:
  "((\<exists>c \<in> set (newIngredientInput s). \<not> isWhiteSpace c) \<and> ingredients s = JArray prev \<longrightarrow>
      trim (newIngredientInput s) \<noteq> []
      \<and> addIngredient s =
          Inr (s\<lparr>ingredients := JArray (prev @ [ingredientRecord (trim (newIngredientInput s))]),
                newIngredientInput := []\<rparr>)
      \<and> property (js ''name'') (ingredientRecord (trim (newIngredientInput s)))
          = Some (JString (trim (newIngredientInput s)))
      \<and> property (js ''quantity'') (ingredientRecord (trim (newIngredientInput s)))
          = Some (JString [])
      \<and> isIngredientList (JArray (prev @ [ingredientRecord (trim (newIngredientInput s))]))
          = isIngredientList (JArray prev))
   \<and> ((\<forall>c \<in> set (newIngredientInput s). isWhiteSpace c) \<longrightarrow> addIngredient s = Inr s)"
  using trim_empty_iff [of "newIngredientInput s"]
  by (auto simp: addIngredient_def spreadWith_def truthy_def isIngredientList_def
      isIngredient_ingredientRecord ingredientRecord_properties)

text \<open>The amended claim at the inputs " 2 eggs " and two blanks.\<close>

theorem addIngredient_spec_witness:
  "(\<exists>c \<in> set (js '' 2 eggs ''). \<not> isWhiteSpace c)
   \<and> addIngredient (initialState\<lparr>ingredients := JArray [eggs], newIngredientInput := js '' 2 eggs ''\<rparr>) =
       Inr (initialState\<lparr>ingredients := JArray [eggs, ingredientRecord (js ''2 eggs'')]\<rparr>)
   \<and> list_all isWhiteSpace (js ''  '')
   \<and> addIngredient (initialState\<lparr>newIngredientInput := js ''  ''\<rparr>) =
       Inr (initialState\<lparr>newIngredientInput := js ''  ''\<rparr>)"
  using addIngredient_spec [of "initialState\<lparr>ingredients := JArray [eggs],
        newIngredientInput := js '' 2 eggs ''\<rparr>" "[eggs]"]
    addIngredient_spec [of "initialState\<lparr>newIngredientInput := js ''  ''\<rparr>" "[]"]
  by (simp add: js_def isWhiteSpace_def trim_def initialState_def)

text \<open>
  Every event keeps the declared shape of the ingredient list, provided that the reply
  of an analysis has it.
\<close>

lemma ingredient_shape_step:
  assumes "isIngredientList (ingredients s)"
    and "\<And>found. e = AnalyzeSettled (Inr found) \<Longrightarrow> isIngredientList found"
  shows "isIngredientList (ingredients (step e s))"
  using assms
  by (cases e)
     (auto simp: handler_defs stopCamera_def isIngredientList_def Let_def removeAt_def
        isIngredient_ingredientRecord list_all_iff
        split: sum.splits option.splits json.splits if_splits dest: set_zip_leftD)

subsection \<open>Servings\<close>

lemma servingsOk_step: "servingsOk s \<Longrightarrow> servingsOk (step e s)"
proof (cases e)
  case DecreaseClick
  assume "servingsOk s"
  then obtain n where n: "servings s = Fin n" "1 \<le> n" "n \<le> 2 ^ 53"
    by (auto simp: servingsOk_def)
  then have "num_sub (Fin n) (Fin 1) = Fin (n - 1)"
    by (simp add: sub_one_exact)
  with n DecreaseClick show ?thesis
    by (auto simp: servingsOk_def decreaseServings_def num_max_def)
next
  case IncreaseClick
  assume "servingsOk s"
  then obtain n where n: "servings s = Fin n" "1 \<le> n" "n \<le> 2 ^ 53"
    by (auto simp: servingsOk_def)
  then obtain m where "num_add (Fin n) (Fin 1) = Fin m" "1 \<le> m" "m \<le> 2 ^ 53"
    using add_one_bounded by blast
  with n IncreaseClick show ?thesis
    by (simp add: servingsOk_def increaseServings_def)
qed (auto simp: servingsOk_def handler_defs Let_def split: sum.splits option.splits json.splits)

lemma servingsOk_reachable: "reachable s \<Longrightarrow> servingsOk s"
proof (induction rule: reachable.induct)
  case reach_start
  show ?case by (simp add: servingsOk_def initialState_def)
next
  case (reach_step s e)
  then show ?case by (simp add: servingsOk_step)
qed

text \<open>
  Claim C8. In every reachable state the servings count is a number that is at least 1.
  It starts at 1; the increment is the JavaScript addition of 1, which raises the count
  except at \<open>2 ^ 53\<close>, where a double no longer changes; the decrement is the maximum of 1
  and the count less 1, so it leaves 1 at 1; reset sets the count to 1.
\<close>

theorem servings_at_least_one:
  assumes "reachable s"
  shows "(\<exists>n. servings s = Fin n \<and> 1 \<le> n)
    \<and> \<not> num_lt (servings s) (Fin 1)
    \<and> servings initialState = Fin 1
    \<and> servings (increaseServings s) = num_add (servings s) (Fin 1)
    \<and> num_lt (servings s) (servings (increaseServings s)) = (servings s \<noteq> Fin (2 ^ 53))
    \<and> servings (decreaseServings s) = num_max (Fin 1) (num_sub (servings s) (Fin 1))
    \<and> (servings s = Fin 1 \<longrightarrow> servings (decreaseServings s) = Fin 1)
    \<and> servings (handleReset s) = Fin 1"
proof -
  from assms have "servingsOk s" by (rule servingsOk_reachable)
  then obtain n where n: "servings s = Fin n" "1 \<le> n" "n \<le> 2 ^ 53"
    by (auto simp: servingsOk_def)
  have inc: "num_lt (Fin n) (num_add (Fin n) (Fin 1)) = (n \<noteq> 2 ^ 53)"
  proof (cases "n = 2 ^ 53")
    case True
    then show ?thesis using toF_above_limit by simp
  next
    case False
    with n have "num_add (Fin n) (Fin 1) = Fin (n + 1)"
      by (intro add_one_exact) simp_all
    with False show ?thesis by simp
  qed
  have dec: "num_sub (Fin 1) (Fin 1) = Fin 0"
    using sub_one_exact [of 1] by simp
  from n inc dec show ?thesis
    by (simp add: increaseServings_def decreaseServings_def handleReset_def initialState_def
        num_max_def)
qed

text \<open>The claim at the state reached by one increment.\<close>

theorem servings_at_least_one_witness:
  "reachable (step IncreaseClick initialState)
   \<and> servings (step IncreaseClick initialState) = Fin 2"
proof -
  have r: "reachable (step IncreaseClick initialState)"
    by (rule reach_step [OF reach_start]) (simp add: startView_def initialState_def)
  have "num_add (Fin 1) (Fin 1) = Fin 2"
    using add_one_exact [of 1] by simp
  with r servings_at_least_one [OF r] show ?thesis
    by (simp add: increaseServings_def initialState_def)
qed

subsection \<open>The view-state machine\<close>

text \<open>
  Claim C3, as stated, fails. After a file has been read the idle view offers the analyze
  button, and \<open>handleAnalyze\<close> sends idle directly to analyzing: the capturing stage is
  jumped over. The edge is neither a step of the sequence nor one of the exceptions.
\<close>

theorem analyze_skips_capturing:
  "reachable (run [FileChange True, FileLoaded photo] initialState)
   \<and> enabled AnalyzeClick (run [FileChange True, FileLoaded photo] initialState)
   \<and> loadingState (run [FileChange True, FileLoaded photo] initialState) = IDLE
   \<and> loadingState (step AnalyzeClick (run [FileChange True, FileLoaded photo] initialState))
       = ANALYZING
   \<and> \<not> claimedEdge IDLE ANALYZING"
proof -
  have "runnable [FileChange True, FileLoaded photo] initialState"
    by (simp add: handler_defs startView_def initialState_def)
  with reach_start have "reachable (run [FileChange True, FileLoaded photo] initialState)"
    by (rule reachable_run)
  then show ?thesis
    by (simp add: handler_defs startView_def initialState_def claimedEdge_def nextStage_def)
qed

lemma step_edge:
  "enabled e s \<Longrightarrow> loadingState (step e s) \<noteq> loadingState s \<Longrightarrow>
     handlerEdge e (loadingState s) (loadingState (step e s))"
  by (cases e)
     (auto simp: handler_defs startView_def Let_def
        split: sum.splits option.splits json.splits if_splits)

text \<open>
  Claim C3, amended. Every change of the view state made by an event that the current
  view offers, or by an operation that settles, is an edge of \<open>handlerEdge\<close>: the camera
  is started from idle or error; an analysis is started from idle or error (capture and
  cancel lead back to idle first); a settling analysis writes reviewing, or error when
  it failed, found nothing or returned null; recipes are requested from reviewing only;
  a settling request writes showing results, or error; capture and cancel lead from
  capturing to idle; reset leads from reviewing or showing results to idle; a camera
  failure writes error. So fetching is entered from reviewing only, never from idle,
  and showing results is written only by a recipe request that settles.
\<close>

theorem view_transitions:
  assumes "enabled e s" and "loadingState (step e s) \<noteq> loadingState s"
  shows "handlerEdge e (loadingState s) (loadingState (step e s))
     \<and> (loadingState (step e s) = FETCHING_RECIPES \<longrightarrow> loadingState s = REVIEW_INGREDIENTS)
     \<and> (loadingState (step e s) = CAPTURING \<or> loadingState (step e s) = ANALYZING \<longrightarrow>
          loadingState s = IDLE \<or> loadingState s = ERROR)
     \<and> (loadingState (step e s) = SHOWING_RESULTS \<longrightarrow> (\<exists>found. e = GenerateSettled (Inr found)))
     \<and> (loadingState (step e s) = REVIEW_INGREDIENTS \<longrightarrow>
          (\<exists>found. e = AnalyzeSettled (Inr found) \<and> found \<noteq> JNull \<and> \<not> lengthIsZero found))
     \<and> (loadingState (step e s) = IDLE \<longrightarrow>
          loadingState s = CAPTURING \<or> loadingState s = REVIEW_INGREDIENTS
          \<or> loadingState s = SHOWING_RESULTS)"
proof -
  have edge: "handlerEdge e (loadingState s) (loadingState (step e s))"
    using assms by (rule step_edge)
  then show ?thesis
    by (cases e) (auto split: sum.splits if_splits)
qed

text \<open>The amended claim at the analyze click in the idle view with one image.\<close>

theorem view_transitions_witness:
  "enabled AnalyzeClick (initialState\<lparr>images := [photo]\<rparr>)
   \<and> loadingState (step AnalyzeClick (initialState\<lparr>images := [photo]\<rparr>)) \<noteq> IDLE
   \<and> handlerEdge AnalyzeClick IDLE
        (loadingState (step AnalyzeClick (initialState\<lparr>images := [photo]\<rparr>)))"
  using view_transitions [of AnalyzeClick "initialState\<lparr>images := [photo]\<rparr>"]
  by (simp add: handleAnalyze_def startView_def initialState_def)

text \<open>
  A settling operation is not guarded by the current view. When a camera request is
  denied late, after the user has cancelled the camera view and gone on, the machine
  can be in the analyzing state while a recipe request settles, which then sends
  analyzing to showing results. This is why the amended claim states the target of a
  settling operation and not its source.
\<close>

lemma late_camera_denial:
  "reachable (run [FileChange True, FileLoaded photo, StartCameraClick, CancelClick,
       AnalyzeClick, AnalyzeSettled (Inr (JArray [eggs])),
       GenerateClick, CameraDenied, AnalyzeClick] initialState)
   \<and> loadingState (run [FileChange True, FileLoaded photo, StartCameraClick, CancelClick,
       AnalyzeClick, AnalyzeSettled (Inr (JArray [eggs])),
       GenerateClick, CameraDenied, AnalyzeClick] initialState) = ANALYZING
   \<and> enabled (GenerateSettled (Inr (JArray [])))
       (run [FileChange True, FileLoaded photo, StartCameraClick, CancelClick,
       AnalyzeClick, AnalyzeSettled (Inr (JArray [eggs])),
       GenerateClick, CameraDenied, AnalyzeClick] initialState)
   \<and> loadingState (step (GenerateSettled (Inr (JArray [])))
       (run [FileChange True, FileLoaded photo, StartCameraClick, CancelClick,
       AnalyzeClick, AnalyzeSettled (Inr (JArray [eggs])),
       GenerateClick, CameraDenied, AnalyzeClick] initialState)) = SHOWING_RESULTS"
proof -
  have "runnable [FileChange True, FileLoaded photo, StartCameraClick, CancelClick,
       AnalyzeClick, AnalyzeSettled (Inr (JArray [eggs])),
       GenerateClick, CameraDenied, AnalyzeClick] initialState"
    by (simp add: handler_defs startView_def initialState_def stopCamera_def lengthIsZero_def)
  with reach_start have "reachable (run [FileChange True, FileLoaded photo, StartCameraClick,
       CancelClick, AnalyzeClick,
       AnalyzeSettled (Inr (JArray [eggs])),
       GenerateClick, CameraDenied, AnalyzeClick] initialState)"
    by (rule reachable_run)
  then show ?thesis
    by (simp add: handler_defs startView_def initialState_def stopCamera_def lengthIsZero_def)
qed

subsection \<open>Failures\<close>

text \<open>
  Claim C4 at a failing file read. A file is chosen in the initial state and the read
  fails. No code of the application runs: the view state stays idle, the error message
  stays null, and the state is the initial state again.
\<close>

theorem file_read_failure_not_surfaced:
  "reachable (step (FileChange True) initialState)
   \<and> enabled FileFailed (step (FileChange True) initialState)
   \<and> loadingState (step FileFailed (step (FileChange True) initialState)) = IDLE
   \<and> error (step FileFailed (step (FileChange True) initialState)) = None
   \<and> step FileFailed (step (FileChange True) initialState) = initialState"
proof -
  have "reachable (step (FileChange True) initialState)"
    by (rule reach_step [OF reach_start]) (simp add: startView_def initialState_def)
  then show ?thesis
    by (simp add: handleFileChange_def reader_failed_def initialState_def)
qed

text \<open>
  The camera and the two service calls do surface their failures: the handler writes the
  error state and a message, and nothing else.
\<close>

lemma other_failures_surface:
  "loadingState (handleStartCamera_catch s) = ERROR
   \<and> error (handleStartCamera_catch s) = Some (Message cameraFailed)
   \<and> loadingState (handleAnalyze_settled (Inl err) s) = ERROR
   \<and> error (handleAnalyze_settled (Inl err) s) = Some (errorMessage err)
   \<and> loadingState (handleGenerateRecipes_settled (Inl err) s) = ERROR
   \<and> error (handleGenerateRecipes_settled (Inl err) s) = Some (errorMessage err)"
  by (simp add: handler_defs)

section \<open>Properties of the service functions\<close>

lemma jsonText_plain:
  "jsonText \<lparr>responseText = Some (js ''null'')\<rparr> = js ''null''
   \<and> jsonText \<lparr>responseText = Some (js ''42'')\<rparr> = js ''42''
   \<and> jsonText \<lparr>responseText = Some (js ''oops'')\<rparr> = js ''oops''
   \<and> jsonText \<lparr>responseText = Some (js ''[]'')\<rparr> = js ''[]''"
  by (simp add: jsonText_def trim_def truthy_def js_def isWhiteSpace_def)

lemma sampleParse_values:
  "sampleParse (js ''[]'') = Inr (JArray [])
   \<and> sampleParse (js ''null'') = Inr JNull
   \<and> sampleParse (js ''42'') = Inr (JNumber (Finite 21 1))
   \<and> sampleParse (js ''oops'') = Inl (ErrorObj (Message (js ''Unexpected token'')))"
  by (simp add: sampleParse_def nullNameReply_def js_def)

lemma sampleParse_empty: "sampleParse (js ''[]'') = Inr (JArray [])"
  by (simp add: sampleParse_def)

lemma eggs_prompt: "\<not> promptThrows (JArray [eggs])"
  by (rule reviewRenders_prompt, rule isIngredientList_renders)
     (simp add: isIngredientList_def isIngredient_eggs)

text \<open>
  Claim C5, as stated, fails. Neither function looks at the value that \<^verbatim>\<open>JSON.parse\<close>
  yields. For a reply whose text is \<^verbatim>\<open>null\<close>, \<open>identifyIngredientsFromImage\<close> returns
  null, and for a reply whose text is \<^verbatim>\<open>42\<close>, \<open>fetchRecipesFromIngredients\<close> returns the
  number 42: neither value is a list of records, and nothing is thrown.
\<close>

theorem reply_returned_unchecked:
  "identifyIngredientsFromImage sampleParse (Resolved \<lparr>responseText = Some (js ''null'')\<rparr>)
      = Inr JNull
   \<and> \<not> isIngredientList JNull
   \<and> fetchRecipesFromIngredients sampleParse (JArray [eggs])
        (Resolved \<lparr>responseText = Some (js ''42'')\<rparr>) = Inr (JNumber (Finite 21 1))
   \<and> \<not> isRecipeList (JNumber (Finite 21 1))"
  by (simp add: identifyIngredientsFromImage_def fetchRecipesFromIngredients_def
      jsonText_plain sampleParse_values eggs_prompt isIngredientList_def isRecipeList_def)

text \<open>
  In the application, a null from the analysis ends in the error view with the message
  of the engine's TypeError; a number from the analysis becomes the ingredient list of
  a review view that does not render; a number from the recipe request becomes the
  recipes.
\<close>

lemma unchecked_reply_in_app:
  "error (handleAnalyze_settled (Inr JNull) s) = Some EngineMessage
   \<and> loadingState (handleAnalyze_settled (Inr JNull) s) = ERROR
   \<and> ingredients (handleAnalyze_settled (Inr (JNumber (Finite 21 1))) s)
       = JNumber (Finite 21 1)
   \<and> loadingState (handleAnalyze_settled (Inr (JNumber (Finite 21 1))) s)
       = REVIEW_INGREDIENTS
   \<and> \<not> reviewRenders (JNumber (Finite 21 1))
   \<and> recipes (handleGenerateRecipes_settled (Inr (JNumber (Finite 21 1))) s)
       = JNumber (Finite 21 1)
   \<and> loadingState (handleGenerateRecipes_settled (Inr (JNumber (Finite 21 1))) s)
       = SHOWING_RESULTS"
  by (simp add: handler_defs lengthIsZero_def reviewRenders_def)

text \<open>
  Claim C5, amended. Each service function returns the value that \<^verbatim>\<open>JSON.parse\<close> yields
  for the text of the reply, whatever it is, and so a value of the declared shape
  exactly when the reply has that shape; a rejected request and a text that does not
  parse both end in an \<^verbatim>\<open>Error\<close> with the function's one fixed message, whatever was
  thrown underneath. \<open>identifyIngredientsFromImage\<close> throws nothing else.
  \<open>fetchRecipesFromIngredients\<close> throws nothing else once its prompt is built; the
  prompt is built before the \<^verbatim>\<open>try\<close> block, and for an ingredient list on which this
  throws, the engine's TypeError leaves the function as it is. A list of the declared
  shape does not make it throw.
\<close>

theorem service_results:
  "identifyIngredientsFromImage parse (Rejected e) = Inl (ErrorObj (Message identifyFailed))
   \<and> (parse (jsonText r) = Inl e \<longrightarrow>
        identifyIngredientsFromImage parse (Resolved r)
          = Inl (ErrorObj (Message identifyFailed)))
   \<and> (parse (jsonText r) = Inr found \<longrightarrow>
        identifyIngredientsFromImage parse (Resolved r) = Inr found)
   \<and> (identifyIngredientsFromImage parse reply = Inl t \<longrightarrow>
        t = ErrorObj (Message identifyFailed))
   \<and> (identifyIngredientsFromImage parse reply = Inr v \<longrightarrow>
        (\<exists>r'. reply = Resolved r' \<and> parse (jsonText r') = Inr v))
   \<and> (promptThrows items \<longrightarrow>
        fetchRecipesFromIngredients parse items reply = Inl (ErrorObj EngineMessage))
   \<and> (\<not> promptThrows items \<longrightarrow>
        fetchRecipesFromIngredients parse items (Rejected e)
          = Inl (ErrorObj (Message recipesFailed))
        \<and> (parse (jsonText r) = Inl e \<longrightarrow>
             fetchRecipesFromIngredients parse items (Resolved r)
               = Inl (ErrorObj (Message recipesFailed)))
        \<and> (parse (jsonText r) = Inr cooked \<longrightarrow>
             fetchRecipesFromIngredients parse items (Resolved r) = Inr cooked)
        \<and> (fetchRecipesFromIngredients parse items reply = Inl t' \<longrightarrow>
             t' = ErrorObj (Message recipesFailed))
        \<and> (fetchRecipesFromIngredients parse items reply = Inr v' \<longrightarrow>
             (\<exists>r'. reply = Resolved r' \<and> parse (jsonText r') = Inr v')))
   \<and> (isIngredientList items \<longrightarrow> \<not> promptThrows items)"
  using reviewRenders_prompt [OF isIngredientList_renders, of items]
  by (auto simp: identifyIngredientsFromImage_def fetchRecipesFromIngredients_def
      split: outcome.splits sum.splits)

text \<open>
  The amended claim at a text that does not parse, at the text of the empty array, and
  at a list of one null, on which the prompt throws.
\<close>

theorem service_results_witness:
  "sampleParse (jsonText \<lparr>responseText = Some (js ''oops'')\<rparr>)
      = Inl (ErrorObj (Message (js ''Unexpected token'')))
   \<and> identifyIngredientsFromImage sampleParse (Resolved \<lparr>responseText = Some (js ''oops'')\<rparr>)
      = Inl (ErrorObj (Message identifyFailed))
   \<and> \<not> promptThrows (JArray [eggs])
   \<and> fetchRecipesFromIngredients sampleParse (JArray [eggs])
        (Resolved \<lparr>responseText = Some (js ''oops'')\<rparr>)
      = Inl (ErrorObj (Message recipesFailed))
   \<and> identifyIngredientsFromImage sampleParse (Resolved \<lparr>responseText = Some (js ''[]'')\<rparr>)
      = Inr (JArray [])
   \<and> promptThrows (JArray [JNull])
   \<and> fetchRecipesFromIngredients sampleParse (JArray [JNull])
        (Resolved \<lparr>responseText = Some (js ''[]'')\<rparr>)
      = Inl (ErrorObj EngineMessage)"
proof -
  have p: "promptThrows (JArray [JNull])"
    by (simp add: promptThrows_def itemThrows_def)
  have a: "identifyIngredientsFromImage sampleParse
        (Resolved \<lparr>responseText = Some (js ''oops'')\<rparr>)
      = Inl (ErrorObj (Message identifyFailed))
    \<and> fetchRecipesFromIngredients sampleParse (JArray [eggs])
        (Resolved \<lparr>responseText = Some (js ''oops'')\<rparr>)
      = Inl (ErrorObj (Message recipesFailed))"
    using service_results [where parse = sampleParse
        and r = "\<lparr>responseText = Some (js ''oops'')\<rparr>"
        and e = "ErrorObj (Message (js ''Unexpected token''))"
        and items = "JArray [eggs]" and found = JNull and cooked = JNull
        and reply = "Rejected NonError" and t = NonError and t' = NonError
        and v = JNull and v' = JNull]
    by (simp add: jsonText_plain sampleParse_values eggs_prompt)
  have b: "identifyIngredientsFromImage sampleParse
        (Resolved \<lparr>responseText = Some (js ''[]'')\<rparr>) = Inr (JArray [])
    \<and> fetchRecipesFromIngredients sampleParse (JArray [JNull])
        (Resolved \<lparr>responseText = Some (js ''[]'')\<rparr>) = Inl (ErrorObj EngineMessage)"
    using service_results [where parse = sampleParse
        and r = "\<lparr>responseText = Some (js ''[]'')\<rparr>"
        and e = NonError
        and items = "JArray [JNull]" and found = "JArray []" and cooked = JNull
        and reply = "Resolved \<lparr>responseText = Some (js ''[]'')\<rparr>"
        and t = NonError and t' = NonError and v = JNull and v' = JNull]
    by (simp add: jsonText_plain sampleParse_values p)
  from a b p show ?thesis
    by (simp add: jsonText_plain sampleParse_values eggs_prompt)
qed

text \<open>
  Claim C10. \<^verbatim>\<open>JSON.parse\<close> maps the text of the empty array to the empty array. Then a
  response whose text is absent, empty or white space only makes both functions return
  the empty list, the text having been replaced by that of the empty array; for
  \<open>fetchRecipesFromIngredients\<close> there is a response only if the request was sent, that
  is, if building the prompt did not throw, as is the case for every list that the
  review view renders. With this result the analysis handler writes the error state
  and the message that no ingredients could be identified, and leaves the ingredient
  list alone.
\<close>

theorem empty_text_gives_empty_list:
  assumes "parse (js ''[]'') = Inr (JArray [])"
    and "responseText r = None
         \<or> (\<exists>t. responseText r = Some t \<and> (\<forall>c \<in> set t. isWhiteSpace c))"
  shows "jsonText r = js ''[]''
    \<and> identifyIngredientsFromImage parse (Resolved r) = Inr (JArray [])
    \<and> (\<not> promptThrows items \<longrightarrow>
         fetchRecipesFromIngredients parse items (Resolved r) = Inr (JArray []))
    \<and> (reviewRenders items \<longrightarrow>
         fetchRecipesFromIngredients parse items (Resolved r) = Inr (JArray []))
    \<and> loadingState (handleAnalyze_settled (identifyIngredientsFromImage parse (Resolved r)) s)
        = ERROR
    \<and> error (handleAnalyze_settled (identifyIngredientsFromImage parse (Resolved r)) s)
        = Some (Message nothingIdentified)
    \<and> ingredients (handleAnalyze_settled (identifyIngredientsFromImage parse (Resolved r)) s)
        = ingredients s"
proof -
  have j: "jsonText r = js ''[]''"
    using assms(2) by (auto simp: jsonText_def truthy_def trim_empty_iff)
  with assms(1) reviewRenders_prompt [of items] show ?thesis
    by (auto simp: identifyIngredientsFromImage_def fetchRecipesFromIngredients_def
        handleAnalyze_settled_def lengthIsZero_def)
qed

text \<open>The claim at a text of two blanks and at an absent text.\<close>

theorem empty_text_gives_empty_list_witness:
  "identifyIngredientsFromImage sampleParse (Resolved \<lparr>responseText = Some (js ''  '')\<rparr>)
      = Inr (JArray [])
   \<and> \<not> promptThrows (JArray [eggs])
   \<and> fetchRecipesFromIngredients sampleParse (JArray [eggs]) (Resolved \<lparr>responseText = None\<rparr>)
      = Inr (JArray [])
   \<and> loadingState (handleAnalyze_settled
        (identifyIngredientsFromImage sampleParse (Resolved \<lparr>responseText = Some (js ''  '')\<rparr>))
        (initialState\<lparr>loadingState := ANALYZING, pendingAnalyze := 1\<rparr>)) = ERROR"
proof -
  have w: "responseText \<lparr>responseText = Some (js ''  '')\<rparr> = None
      \<or> (\<exists>t. responseText \<lparr>responseText = Some (js ''  '')\<rparr> = Some t
            \<and> (\<forall>c \<in> set t. isWhiteSpace c))"
    by (simp add: js_def isWhiteSpace_def)
  have n: "responseText \<lparr>responseText = None\<rparr> = None
      \<or> (\<exists>t. responseText \<lparr>responseText = None\<rparr> = Some t \<and> (\<forall>c \<in> set t. isWhiteSpace c))"
    by simp
  show ?thesis
    using empty_text_gives_empty_list [where parse = sampleParse
        and r = "\<lparr>responseText = Some (js ''  '')\<rparr>"
        and s = "initialState\<lparr>loadingState := ANALYZING, pendingAnalyze := 1\<rparr>"
        and items = "JArray [eggs]",
        OF sampleParse_empty w]
      empty_text_gives_empty_list [where parse = sampleParse
        and r = "\<lparr>responseText = None\<rparr>" and s = initialState
        and items = "JArray [eggs]",
        OF sampleParse_empty n]
      eggs_prompt
    by (elim conjE) simp
qed

section \<open>Properties of the instruction renderer\<close>

lemma label_partOfMatch: "label (partOfMatch s (index, e1, b2, e3)) = substring s index e3"
  by (simp add: partOfMatch_def label_def Let_def)

lemma label_Text: "label (Text t) = t"
  by (simp add: label_def)

lemma substring_join:
  "a \<le> b \<Longrightarrow> b \<le> length s \<Longrightarrow> substring s a b @ drop b s = drop a s"
proof -
  assume a: "a \<le> b" "b \<le> length s"
  have "take (b - a) (drop a s) @ drop (b - a) (drop a s) = drop a s"
    by (rule append_take_drop_id)
  with a show ?thesis
    by (simp add: substring_take_drop)
qed

lemma renderLoop_interleave:
  "renderLoop s lastIndex parts = parts @ interleave s lastIndex (matches s lastIndex)"
proof (induction s lastIndex parts rule: renderLoop.induct)
  case (1 s lastIndex parts)
  show ?case
  proof (cases "exec s lastIndex")
    case None
    then show ?thesis
      by (subst renderLoop.simps, subst matches.simps) simp
  next
    case (Some m)
    obtain index e1 b2 e3 where m: "m = (index, e1, b2, e3)"
      by (cases m) auto
    note IH = "1.IH" [OF Some [unfolded m] refl refl refl]
    from Some m show ?thesis
      by (subst renderLoop.simps, subst matches.simps) (simp add: IH)
  qed
qed

lemma shown_interleave:
  "lastIndex \<le> length s \<Longrightarrow>
     concat (map label (interleave s lastIndex (matches s lastIndex))) = drop lastIndex s"
proof (induction s lastIndex rule: matches.induct)
  case (1 s lastIndex)
  show ?case
  proof (cases "exec s lastIndex")
    case None
    with "1.prems" show ?thesis
      by (subst matches.simps) (simp add: label_Text substring_take_drop)
  next
    case (Some m)
    obtain index e1 b2 e3 where m: "m = (index, e1, b2, e3)"
      by (cases m) auto
    from Some m have b: "lastIndex \<le> index" "index \<le> e3" "e3 \<le> length s"
      using exec_advances [of s lastIndex index e1 b2 e3] by simp_all
    have IH: "concat (map label (interleave s e3 (matches s e3))) = drop e3 s"
      using "1.IH" [OF Some [unfolded m] refl refl refl] b by simp
    have gap: "substring s lastIndex index @ drop index s = drop lastIndex s"
      using b by (simp add: substring_join)
    have full: "substring s index e3 @ drop e3 s = drop index s"
      using b by (simp add: substring_join)
    have unfold: "matches s lastIndex = (index, e1, b2, e3) # matches s e3"
      using Some m by (subst matches.simps) simp
    show ?thesis
    proof (cases "lastIndex < index")
      case True
      then have "concat (map label (interleave s lastIndex (matches s lastIndex))) =
          substring s lastIndex index @ substring s index e3 @ drop e3 s"
        by (simp add: unfold IH label_partOfMatch label_Text)
      with full gap show ?thesis by simp
    next
      case False
      with b have same: "lastIndex = index" by simp
      from False have "concat (map label (interleave s lastIndex (matches s lastIndex))) =
          substring s index e3 @ drop e3 s"
        by (simp add: unfold IH label_partOfMatch)
      with full same show ?thesis by simp
    qed
  qed
qed

text \<open>
  Claim C9. For every instruction string, the concatenation of the emitted parts in
  order, a text segment as it is and a timer trigger by its label, is the string itself.
\<close>

theorem rendering_preserves_text: "shownText (renderInstructionText s) = s"
proof -
  have "concat (map label (renderLoop s 0 [])) = s"
    using shown_interleave [of 0 s] by (simp add: renderLoop_interleave)
  then show ?thesis
    by (auto simp: renderInstructionText_def shownText_def Let_def)
qed

lemmas regex_defs =
  firstMatch_def timeRegex_def boundaryM_def boundary_def isWordAt_def isWordChar_def
  isDigit_def numberM_def seqM_def plusM_def charM_def optM_def altM_def emptyM_def
  starM.simps isWhiteSpace_def unitM_def pluralM_def sameLetter_def canonicalize_def

lemma renderLoop_None:
  "exec s lastIndex = None \<Longrightarrow>
     renderLoop s lastIndex parts =
       (if lastIndex < length s then parts @ [Text (substring s lastIndex (length s))]
        else parts)"
  by (subst renderLoop.simps) simp

lemma renderLoop_Some:
  "exec s lastIndex = Some (index, e1, b2, e3) \<Longrightarrow>
     renderLoop s lastIndex parts =
       renderLoop s e3
         ((if lastIndex < index then parts @ [Text (substring s lastIndex index)] else parts)
          @ [partOfMatch s (index, e1, b2, e3)])"
  by (subst renderLoop.simps) simp

lemmas part_defs =
  partOfMatch_def secondsOf_def substring_def parseInt10_def splitHead_def toLowerCase_def
  lowerChar_def multiplierOf_def startsWith_def decimal_def toF_def round53_def num_gt_def

lemma timeRegex_phrase:
  "(e1, b2, e3) \<in> set (timeRegex s i) \<longleftrightarrow> (\<exists>d. durationPhrase s i d e1 b2 e3)"
  by (auto simp: set_timeRegex set_numberM durationPhrase_def)

lemma unitWords_cases:
  "u \<in> set unitWords \<Longrightarrow>
     u = js ''hour'' \<or> u = js ''hours'' \<or> u = js ''hr'' \<or> u = js ''hrs''
     \<or> u = js ''minute'' \<or> u = js ''minutes'' \<or> u = js ''min'' \<or> u = js ''mins''
     \<or> u = js ''second'' \<or> u = js ''seconds'' \<or> u = js ''sec'' \<or> u = js ''secs''"
  by (auto simp: unitWords_def)

lemma multiplier_words:
  "multiplierOf (js ''hour'') = Fin 3600" "multiplierOf (js ''hours'') = Fin 3600"
  "multiplierOf (js ''hr'') = Fin 3600" "multiplierOf (js ''hrs'') = Fin 3600"
  "multiplierOf (js ''minute'') = Fin 60" "multiplierOf (js ''minutes'') = Fin 60"
  "multiplierOf (js ''min'') = Fin 60" "multiplierOf (js ''mins'') = Fin 60"
  "multiplierOf (js ''second'') = Fin 1" "multiplierOf (js ''seconds'') = Fin 1"
  "multiplierOf (js ''sec'') = Fin 1" "multiplierOf (js ''secs'') = Fin 1"
  by (simp_all add: multiplierOf_def startsWith_def js_def)

lemma unitSeconds_words:
  "unitSeconds (js ''hour'') = 3600" "unitSeconds (js ''hours'') = 3600"
  "unitSeconds (js ''hr'') = 3600" "unitSeconds (js ''hrs'') = 3600"
  "unitSeconds (js ''minute'') = 60" "unitSeconds (js ''minutes'') = 60"
  "unitSeconds (js ''min'') = 60" "unitSeconds (js ''mins'') = 60"
  "unitSeconds (js ''second'') = 1" "unitSeconds (js ''seconds'') = 1"
  "unitSeconds (js ''sec'') = 1" "unitSeconds (js ''secs'') = 1"
  by (simp_all add: unitSeconds_def js_def)

lemma multiplier_unit:
  assumes "u \<in> set unitWords"
  shows "multiplierOf u = Fin (int (unitSeconds u)) \<and> 0 < unitSeconds u"
  using unitWords_cases [OF assms]
  by (elim disjE) (simp_all add: multiplier_words unitSeconds_words)

lemma substring_nth:
  "a \<le> b \<Longrightarrow> b \<le> length s \<Longrightarrow> k < b - a \<Longrightarrow> substring s a b ! k = s ! (a + k)"
  by (simp add: substring_take_drop)

lemma substring_length: "a \<le> b \<Longrightarrow> b \<le> length s \<Longrightarrow> length (substring s a b) = b - a"
  by (simp add: substring_take_drop min_absorb2 diff_le_mono)

lemma allOn_substring: "allOn P s a b \<Longrightarrow> list_all P (substring s a b)"
proof -
  assume a: "allOn P s a b"
  then have ab: "a \<le> b" "b \<le> length s" by (simp_all add: allOn_def)
  have "\<forall>k < length (substring s a b). P (substring s a b ! k)"
  proof (intro allI impI)
    fix k assume "k < length (substring s a b)"
    with ab have k: "k < b - a" by (simp add: substring_length)
    then have "a + k \<in> {a..<b}" by simp
    with a have "P (s ! (a + k))" by (simp add: allOn_def)
    with ab k show "P (substring s a b ! k)" by (simp add: substring_nth)
  qed
  then show ?thesis by (simp add: list_all_length)
qed

lemma substring_split:
  "a \<le> b \<Longrightarrow> b \<le> c \<Longrightarrow> c \<le> length s \<Longrightarrow>
     substring s a c = substring s a b @ substring s b c"
proof -
  assume a: "a \<le> b" "b \<le> c" "c \<le> length s"
  then have "c - a = (b - a) + (c - b)" by simp
  then have "take (c - a) (drop a s) = take ((b - a) + (c - b)) (drop a s)"
    by (rule arg_cong)
  also have "\<dots> = take (b - a) (drop a s) @ take (c - b) (drop (b - a) (drop a s))"
    by (rule take_add)
  also from a have "drop (b - a) (drop a s) = drop b s"
    by simp
  finally show ?thesis
    using a by (simp add: substring_take_drop)
qed

lemma substring_head:
  "a < b \<Longrightarrow> b \<le> length s \<Longrightarrow> substring s a b = s ! a # substring s (Suc a) b"
proof -
  assume a: "a < b" "b \<le> length s"
  then have "drop a s = s ! a # drop (Suc a) s"
    by (simp add: Cons_nth_drop_Suc)
  moreover from a have "b - a = Suc (b - Suc a)" by simp
  ultimately show ?thesis
    using a by (simp add: substring_take_drop)
qed

lemma splitHead_digits:
  "list_all isDigit ds \<Longrightarrow> splitHead 45 ds = ds \<and> splitHead 45 (ds @ 45 # rest) = ds"
proof -
  assume "list_all isDigit ds"
  then have "\<forall>c \<in> set ds. c \<noteq> 45"
    by (auto simp: list_all_iff isDigit_def)
  then show ?thesis
    by (simp add: splitHead_def takeWhile_append2)
qed

lemma parseInt10_digits:
  "ds \<noteq> [] \<Longrightarrow> list_all isDigit ds \<Longrightarrow> parseInt10 ds = toF (int (decimal ds))"
proof -
  assume ne: "ds \<noteq> []" and all: "list_all isDigit ds"
  then have h: "isDigit (hd ds)"
    by (cases ds) simp_all
  then have nows: "\<not> isWhiteSpace (hd ds)" and nosign: "hd ds \<noteq> 45" "hd ds \<noteq> 43"
    by (auto simp: isDigit_def isWhiteSpace_def)
  from ne nows have d: "dropWhile isWhiteSpace ds = ds"
    by (cases ds) simp_all
  from all have t: "takeWhile isDigit ds = ds"
    by (simp add: list_all_iff)
  from ne nosign show ?thesis
    by (simp add: parseInt10_def d t Let_def)
qed

lemma phrase_lower_bound:
  assumes "durationPhrase s i d e1 b2 e3"
  shows "parseInt10 (splitHead 45 (substring s i e1)) = toF (int (decimal (substring s i d)))"
proof -
  from assms have id: "i < d" and dig: "allOn isDigit s i d"
    and alt: "e1 = d \<or> (d < length s \<and> s ! d = 45 \<and> Suc d < e1 \<and> allOn isDigit s (Suc d) e1)"
    by (simp_all add: durationPhrase_def)
  from dig have dl: "d \<le> length s" by (simp add: allOn_def)
  from dig have all: "list_all isDigit (substring s i d)"
    by (rule allOn_substring)
  from id dl have "length (substring s i d) = d - i"
    by (simp add: substring_length)
  with id have ne: "substring s i d \<noteq> []"
    by auto
  have "splitHead 45 (substring s i e1) = substring s i d"
  proof (cases "e1 = d")
    case True
    with all show ?thesis by (simp add: splitHead_digits)
  next
    case False
    with alt have r: "d < length s" "s ! d = 45" "Suc d < e1" "allOn isDigit s (Suc d) e1"
      by simp_all
    then have e1: "e1 \<le> length s" by (simp add: allOn_def)
    from id r e1 have "substring s i e1 = substring s i d @ substring s d e1"
      by (intro substring_split) simp_all
    also from r e1 have "substring s d e1 = 45 # substring s (Suc d) e1"
      using substring_head [of d e1 s] by simp
    finally show ?thesis
      using all by (simp add: splitHead_digits)
  qed
  with ne all show ?thesis
    by (simp add: parseInt10_digits)
qed

lemma bitlen_lower: "n \<noteq> 0 \<Longrightarrow> 2 ^ (bitlen n - 1) \<le> n"
proof (induction n rule: bitlen.induct)
  case (1 n)
  from "1.prems" have b: "bitlen n = Suc (bitlen (n div 2))"
    by (subst bitlen.simps) simp
  show ?case
  proof (cases "n div 2 = 0")
    case True
    then have "bitlen (n div 2) = 0"
      by (subst bitlen.simps) simp
    with b "1.prems" show ?thesis by simp
  next
    case False
    then have IH: "2 ^ (bitlen (n div 2) - 1) \<le> n div 2"
      using "1.IH" "1.prems" by simp
    from False have "bitlen (n div 2) = Suc (bitlen (n div 2 div 2))"
      by (subst bitlen.simps) simp
    then have "(2::nat) ^ bitlen (n div 2) = 2 * 2 ^ (bitlen (n div 2) - 1)"
      by simp
    also from IH have "\<dots> \<le> 2 * (n div 2)"
      by simp
    also have "\<dots> \<le> n"
      by simp
    finally show ?thesis
      using b by simp
  qed
qed

lemma round53_pos: "0 < n \<Longrightarrow> 0 < round53 n"
proof (cases "n < 2 ^ 53")
  case True
  assume "0 < n"
  with True show ?thesis by (simp add: round53_small)
next
  case False
  assume n: "0 < n"
  have "(2::nat) ^ (bitlen n - 53) \<le> 2 ^ (bitlen n - 1)"
    by (rule power_increasing) simp_all
  also have "\<dots> \<le> n"
    using bitlen_lower [of n] n by simp
  finally have "0 < n div 2 ^ (bitlen n - 53)"
    by (simp add: div_greater_zero_iff)
  with False show ?thesis
    by (auto simp: round53_def Let_def)
qed

lemma toF_zero: "toF 0 = Fin 0"
  by (simp add: toF_exact)

lemma toF_nonneg_cases:
  "0 \<le> i \<Longrightarrow> toF i = PosInf \<or> (\<exists>v. toF i = Fin v \<and> 0 \<le> v \<and> (v = 0 \<longleftrightarrow> i = 0))"
proof (cases "i = 0")
  case True
  then show ?thesis by (simp add: toF_zero)
next
  case False
  assume "0 \<le> i"
  with False have "0 < nat \<bar>i\<bar>" by simp
  then have "0 < round53 (nat \<bar>i\<bar>)" by (rule round53_pos)
  with False \<open>0 \<le> i\<close> show ?thesis
    by (simp add: toF_def Let_def)
qed

lemma toF_pos: "0 < i \<Longrightarrow> num_gt (toF i) (Fin 0)"
  using toF_nonneg_cases [of i] by (auto simp: num_gt_def)

lemma toF_exact_le: "0 \<le> i \<Longrightarrow> i \<le> 2 ^ 53 \<Longrightarrow> toF i = Fin i"
proof (cases "i = 2 ^ 53")
  case True
  then show ?thesis using toF_at_limit by simp
next
  case False
  assume "0 \<le> i" "i \<le> 2 ^ 53"
  with False have "\<bar>i\<bar> < 2 ^ 53" by simp
  then show ?thesis by (rule toF_exact)
qed

lemma seconds_positive:
  assumes "0 < mult"
  shows "num_gt (num_mul (toF (int lo)) (Fin (int mult))) (Fin 0) \<longleftrightarrow> 0 < lo"
proof -
  have "0 \<le> int lo" by simp
  then consider (inf) "toF (int lo) = PosInf"
    | (fin) v where "toF (int lo) = Fin v" "0 \<le> v" "v = 0 \<longleftrightarrow> int lo = 0"
    using toF_nonneg_cases [of "int lo"] by blast
  then show ?thesis
  proof cases
    case inf
    have "lo \<noteq> 0"
    proof
      assume "lo = 0"
      then have "toF (int lo) = Fin 0" by (simp add: toF_zero)
      with inf show False by simp
    qed
    with inf assms show ?thesis
      by (simp add: inf_of_sign_def num_gt_def)
  next
    case fin
    show ?thesis
    proof (cases "lo = 0")
      case True
      with fin show ?thesis
        by (simp add: toF_zero num_gt_def)
    next
      case False
      with fin assms have "0 < v * int mult" by simp
      then have "num_gt (toF (v * int mult)) (Fin 0)" by (rule toF_pos)
      with fin False show ?thesis by simp
    qed
  qed
qed

lemma seconds_exact:
  assumes "0 < mult" and "lo * mult \<le> 2 ^ 53"
  shows "num_mul (toF (int lo)) (Fin (int mult)) = Fin (int (lo * mult))"
proof -
  from assms(1) have "lo \<le> lo * mult" by simp
  from this assms(2) have "lo \<le> 2 ^ 53" by (rule le_trans)
  then have "int lo \<le> 2 ^ 53"
    by (metis of_nat_le_iff of_nat_numeral of_nat_power)
  then have lo: "toF (int lo) = Fin (int lo)"
    by (intro toF_exact_le) simp_all
  from assms(2) have "int (lo * mult) \<le> 2 ^ 53"
    by (metis of_nat_le_iff of_nat_numeral of_nat_power)
  then have "toF (int lo * int mult) = Fin (int lo * int mult)"
    by (intro toF_exact_le) simp_all
  with lo show ?thesis by simp
qed

lemma phrase_seconds:
  assumes "durationPhrase s i d e1 b2 e3"
  shows "secondsOf s (i, e1, b2, e3) =
     num_mul (toF (int (decimal (substring s i d))))
       (Fin (int (unitSeconds (toLowerCase (substring s b2 e3)))))"
proof -
  from assms have u: "toLowerCase (substring s b2 e3) \<in> set unitWords"
    by (simp add: durationPhrase_def)
  have "toF (int (decimal (substring s i d))) \<noteq> NaN"
    using toF_nonneg_cases [of "int (decimal (substring s i d))"] by auto
  then show ?thesis
    by (simp add: secondsOf_def Let_def phrase_lower_bound [OF assms] multiplier_unit [OF u])
qed

lemma matches_phrase:
  "(index, e1, b2, e3) \<in> set (matches s lastIndex) \<Longrightarrow>
     lastIndex \<le> index \<and> (e1, b2, e3) \<in> set (timeRegex s index)"
proof (induction s lastIndex rule: matches.induct)
  case (1 s lastIndex)
  show ?case
  proof (cases "exec s lastIndex")
    case None
    with "1.prems" show ?thesis
      by (subst (asm) matches.simps) simp
  next
    case (Some m)
    obtain i' a b c where m: "m = (i', a, b, c)"
      by (cases m) auto
    from Some m have adv: "lastIndex \<le> i'" "i' < c"
      using exec_advances [of s lastIndex i' a b c] by simp_all
    from Some m have first: "firstMatch s i' = Some (a, b, c)"
      by (simp add: exec_Some)
    from Some m have unfold: "matches s lastIndex = (i', a, b, c) # matches s c"
      by (subst matches.simps) simp
    from "1.prems" unfold consider (head) "(index, e1, b2, e3) = (i', a, b, c)"
      | (tail) "(index, e1, b2, e3) \<in> set (matches s c)" by auto
    then show ?thesis
    proof cases
      case head
      with adv firstMatch_Some [OF first] show ?thesis by simp
    next
      case tail
      then have "c \<le> index \<and> (e1, b2, e3) \<in> set (timeRegex s index)"
        using "1.IH" [OF Some [unfolded m] refl refl refl] by simp
      with adv show ?thesis by simp
    qed
  qed
qed

lemma matches_cover:
  "durationPhrase s j d e1 b2 e3 \<Longrightarrow> lastIndex \<le> j \<Longrightarrow>
     \<exists>m \<in> set (matches s lastIndex). fst m \<le> j \<and> j < snd (snd (snd m))"
proof (induction s lastIndex rule: matches.induct)
  case (1 s lastIndex)
  from "1.prems"(1) have found: "firstMatch s j \<noteq> None"
    using timeRegex_phrase [of e1 b2 e3 s j] by (auto simp: firstMatch_None)
  from "1.prems"(1) have jl: "j \<le> length s"
    by (auto simp: durationPhrase_def allOn_def)
  show ?case
  proof (cases "exec s lastIndex")
    case None
    have "firstMatch s j = None"
      using exec_None [OF None "1.prems"(2) jl] .
    with found show ?thesis by simp
  next
    case (Some m)
    obtain i' a b c where m: "m = (i', a, b, c)"
      by (cases m) auto
    from Some m have none: "\<forall>k. lastIndex \<le> k \<and> k < i' \<longrightarrow> firstMatch s k = None"
      by (simp add: exec_Some)
    with found "1.prems"(2) have le: "i' \<le> j"
      by (meson not_le_imp_less)
    from Some m have unfold: "matches s lastIndex = (i', a, b, c) # matches s c"
      by (subst matches.simps) simp
    show ?thesis
    proof (cases "j < c")
      case True
      with le unfold show ?thesis by simp
    next
      case False
      then have "c \<le> j" by simp
      then have "\<exists>m \<in> set (matches s c). fst m \<le> j \<and> j < snd (snd (snd m))"
        using "1.IH" [OF Some [unfolded m] refl refl refl "1.prems"(1)] by simp
      with unfold show ?thesis by auto
    qed
  qed
qed

text \<open>
  Claim C1, as stated, fails. \<^verbatim>\<open>parseInt\<close> yields a double: the lower bound
  9007199254740993, which is \<open>2 ^ 53 + 1\<close>, is read as 9007199254740992, and the trigger
  for "9007199254740993 seconds" carries that duration, not the lower bound times 1.
\<close>

theorem large_count_is_rounded:
  "renderInstructionText (js ''9007199254740993 seconds'') =
     Fragment [TimerButton 0 (js ''9007199254740993 seconds'') (Fin 9007199254740992)]
   \<and> decimal (js ''9007199254740993'') * unitSeconds (js ''seconds'') = 9007199254740993"
proof -
  have a: "exec (js ''9007199254740993 seconds'') 0 = Some (0, 16, 17, 24)"
    by (simp add: exec.simps regex_defs js_def)
  have b: "exec (js ''9007199254740993 seconds'') 24 = None"
    by (simp add: exec.simps regex_defs js_def)
  have r: "renderInstructionText (js ''9007199254740993 seconds'') =
     Fragment [TimerButton 0 (js ''9007199254740993 seconds'') (Fin 9007199254740992)]"
    by (simp add: renderInstructionText_def renderLoop_Some [OF a] renderLoop_None [OF b])
       (simp add: js_def part_defs isDigit_def isWhiteSpace_def bitlen.simps Let_def)
  have d: "decimal (js ''9007199254740993'') * unitSeconds (js ''seconds'') = 9007199254740993"
    by (simp add: decimal_def unitSeconds_def js_def)
  from r d show ?thesis by simp
qed

text \<open>
  Claim C1, amended. For every instruction string the parts are the matches of the scan,
  in order, with the text between them. Every match of the scan is a duration phrase: a
  number, optionally a range with a dash, then optional white space, then a time unit
  (hour, hr, minute, min, second, sec, singular or plural, in any mix of cases), on word
  boundaries. Its duration is the JavaScript product of the lower bound and 1 for
  seconds, 60 for minutes, 3600 for hours; it equals the exact product whenever that is at
  most \<open>2 ^ 53\<close>. The match becomes a timer trigger with this duration and the matched
  text as its label when the lower bound is not zero, and stays plain text when it is
  zero. Conversely the scan misses no phrase: wherever a duration phrase starts, a match
  of the scan starts there or covers that position.
\<close>

theorem duration_triggers:
  "renderInstructionText s =
     (if interleave s 0 (matches s 0) = [] then Plain s
      else Fragment (interleave s 0 (matches s 0)))
   \<and> ((index, e1, b2, e3) \<in> set (matches s 0) \<longrightarrow>
        (\<exists>d. durationPhrase s index d e1 b2 e3
           \<and> secondsOf s (index, e1, b2, e3) =
               num_mul (toF (int (decimal (substring s index d))))
                 (Fin (int (unitSeconds (toLowerCase (substring s b2 e3)))))
           \<and> (decimal (substring s index d) * unitSeconds (toLowerCase (substring s b2 e3))
                 \<le> 2 ^ 53 \<longrightarrow>
               secondsOf s (index, e1, b2, e3) =
                 Fin (int (decimal (substring s index d)
                           * unitSeconds (toLowerCase (substring s b2 e3)))))
           \<and> partOfMatch s (index, e1, b2, e3) =
               (if 0 < decimal (substring s index d)
                then TimerButton index (substring s index e3) (secondsOf s (index, e1, b2, e3))
                else Text (substring s index e3))))
   \<and> (durationPhrase s j d' e1' b2' e3' \<longrightarrow>
        (\<exists>m \<in> set (matches s 0). fst m \<le> j \<and> j < snd (snd (snd m))))"
proof (intro conjI impI)
  show "renderInstructionText s =
     (if interleave s 0 (matches s 0) = [] then Plain s
      else Fragment (interleave s 0 (matches s 0)))"
    using renderLoop_interleave [of s 0 "[]"]
    by (simp add: renderInstructionText_def Let_def)
next
  assume "(index, e1, b2, e3) \<in> set (matches s 0)"
  then have "(e1, b2, e3) \<in> set (timeRegex s index)"
    by (simp add: matches_phrase)
  then obtain d where p: "durationPhrase s index d e1 b2 e3"
    by (auto simp: timeRegex_phrase)
  define lo where "lo = decimal (substring s index d)"
  define mult where "mult = unitSeconds (toLowerCase (substring s b2 e3))"
  from p have "toLowerCase (substring s b2 e3) \<in> set unitWords"
    by (simp add: durationPhrase_def)
  then have mult: "0 < mult"
    unfolding mult_def by (simp add: multiplier_unit)
  have sec: "secondsOf s (index, e1, b2, e3) = num_mul (toF (int lo)) (Fin (int mult))"
    unfolding lo_def mult_def by (rule phrase_seconds [OF p])
  have exact: "lo * mult \<le> 2 ^ 53 \<longrightarrow> secondsOf s (index, e1, b2, e3) = Fin (int (lo * mult))"
    using seconds_exact [OF mult] sec by simp
  have pos: "num_gt (secondsOf s (index, e1, b2, e3)) (Fin 0) \<longleftrightarrow> 0 < lo"
    using seconds_positive [OF mult] sec by simp
  have part: "partOfMatch s (index, e1, b2, e3) =
      (if 0 < lo then TimerButton index (substring s index e3) (secondsOf s (index, e1, b2, e3))
       else Text (substring s index e3))"
    using pos by (simp add: partOfMatch_def Let_def)
  from p sec exact part
  show "\<exists>d. durationPhrase s index d e1 b2 e3
           \<and> secondsOf s (index, e1, b2, e3) =
               num_mul (toF (int (decimal (substring s index d))))
                 (Fin (int (unitSeconds (toLowerCase (substring s b2 e3)))))
           \<and> (decimal (substring s index d) * unitSeconds (toLowerCase (substring s b2 e3))
                 \<le> 2 ^ 53 \<longrightarrow>
               secondsOf s (index, e1, b2, e3) =
                 Fin (int (decimal (substring s index d)
                           * unitSeconds (toLowerCase (substring s b2 e3)))))
           \<and> partOfMatch s (index, e1, b2, e3) =
               (if 0 < decimal (substring s index d)
                then TimerButton index (substring s index e3) (secondsOf s (index, e1, b2, e3))
                else Text (substring s index e3))"
    unfolding lo_def mult_def by blast
next
  assume "durationPhrase s j d' e1' b2' e3'"
  then show "\<exists>m \<in> set (matches s 0). fst m \<le> j \<and> j < snd (snd (snd m))"
    by (rule matches_cover) simp
qed

lemma matches_None: "exec s lastIndex = None \<Longrightarrow> matches s lastIndex = []"
  by (subst matches.simps) simp

lemma matches_Some:
  "exec s lastIndex = Some (index, e1, b2, e3) \<Longrightarrow>
     matches s lastIndex = (index, e1, b2, e3) # matches s e3"
  by (subst matches.simps) simp

text \<open>The amended claim at "Bake 5-10 Mins, rest 0 minutes.".\<close>

theorem duration_triggers_witness:
  "matches (js ''Bake 5-10 Mins, rest 0 minutes.'') 0 = [(5, 9, 10, 14), (21, 22, 23, 30)]
   \<and> renderInstructionText (js ''Bake 5-10 Mins, rest 0 minutes.'') =
       Fragment [Text (js ''Bake ''), TimerButton 5 (js ''5-10 Mins'') (Fin 300),
         Text (js '', rest ''), Text (js ''0 minutes''), Text (js ''.'')]
   \<and> (\<exists>d. durationPhrase (js ''Bake 5-10 Mins, rest 0 minutes.'') 5 d 9 10 14
         \<and> (\<exists>m \<in> set (matches (js ''Bake 5-10 Mins, rest 0 minutes.'') 0).
               fst m \<le> 5 \<and> 5 < snd (snd (snd m))))"
proof -
  have a: "exec (js ''Bake 5-10 Mins, rest 0 minutes.'') 0 = Some (5, 9, 10, 14)"
    by (simp add: exec.simps regex_defs js_def)
  have b: "exec (js ''Bake 5-10 Mins, rest 0 minutes.'') 14 = Some (21, 22, 23, 30)"
    by (simp add: exec.simps regex_defs js_def)
  have c: "exec (js ''Bake 5-10 Mins, rest 0 minutes.'') 30 = None"
    by (simp add: exec.simps regex_defs js_def)
  have m: "matches (js ''Bake 5-10 Mins, rest 0 minutes.'') 0
      = [(5, 9, 10, 14), (21, 22, 23, 30)]"
    by (simp add: matches_Some [OF a] matches_Some [OF b] matches_None [OF c])
  have r: "renderInstructionText (js ''Bake 5-10 Mins, rest 0 minutes.'') =
       Fragment [Text (js ''Bake ''), TimerButton 5 (js ''5-10 Mins'') (Fin 300),
         Text (js '', rest ''), Text (js ''0 minutes''), Text (js ''.'')]"
    by (simp add: renderInstructionText_def renderLoop_Some [OF a] renderLoop_Some [OF b]
          renderLoop_None [OF c])
       (simp add: js_def part_defs isDigit_def isWhiteSpace_def Let_def)
  have "(5, 9, 10, 14) \<in> set (matches (js ''Bake 5-10 Mins, rest 0 minutes.'') 0)"
    by (simp add: m)
  then obtain d where d: "durationPhrase (js ''Bake 5-10 Mins, rest 0 minutes.'') 5 d 9 10 14"
    using duration_triggers [of "js ''Bake 5-10 Mins, rest 0 minutes.''" 5 9 10 14]
    by blast
  then have "\<exists>m \<in> set (matches (js ''Bake 5-10 Mins, rest 0 minutes.'') 0).
      fst m \<le> 5 \<and> 5 < snd (snd (snd m))"
    using duration_triggers [of "js ''Bake 5-10 Mins, rest 0 minutes.''" _ _ _ _ 5 d 9 10 14]
    by blast
  with m r d show ?thesis by blast
qed

section \<open>Properties of the countdown timer\<close>






text \<open>A timer of \<open>k\<close> seconds, \<open>k\<close> at most \<open>2 ^ 53\<close>, is finished after \<open>k\<close> seconds.\<close>

lemma countdown_runs_down:
  "int k \<le> 2 ^ 53 \<Longrightarrow> 0 < k \<Longrightarrow>
     (second ^^ k) \<lparr>timeLeft = Fin (int k), isActive = True, isFinished = False\<rparr>
       = \<lparr>timeLeft = Fin 0, isActive = False, isFinished = True\<rparr>"
proof (induction k)
  case 0
  then show ?case by simp
next
  case (Suc k)
  have dec: "num_sub (Fin (int (Suc k))) (Fin 1) = Fin (int k)"
    using sub_one_exact [of "int (Suc k)"] Suc.prems by simp
  show ?case
  proof (cases "k = 0")
    case True
    with dec show ?thesis
      by (simp add: second_def tick_def countdownEffect_def intervalArmed_def num_gt_def
          num_eq_def)
  next
    case False
    with dec have "second \<lparr>timeLeft = Fin (int (Suc k)), isActive = True, isFinished = False\<rparr>
        = \<lparr>timeLeft = Fin (int k), isActive = True, isFinished = False\<rparr>"
      by (simp add: second_def tick_def countdownEffect_def intervalArmed_def num_gt_def
          num_eq_def)
    with False Suc show ?thesis
      by (simp add: funpow_swap1)
  qed
qed

end
